theory Spec2Isabelle
  imports Complex_Main
begin

unbundle bit_operations_syntax

section \<open>The process and its environment\<close>

text \<open>
  An address entry of \<^verbatim>\<open>os.networkInterfaces()\<close>, a dictionary from interface names
  to lists of entries. The dictionary is kept as an association list in the order of
  \<^verbatim>\<open>Object.keys\<close>; a name may map to \<^verbatim>\<open>undefined\<close>, which the source replaces by
  the empty list (\<^verbatim>\<open>interfaces[name] || []\<close>).
\<close>

record iface =
  family :: string
  internal :: bool
  address :: string

type_synonym interfaces = "(string \<times> iface list option) list"

text \<open>
  A filesystem node with what decides access to it: whether the process owns it,
  whether the process is in its group, and the permission bits.
\<close>

record node =
  is_dir :: bool
  owned :: bool
  in_group :: bool
  mode :: nat
  content :: string

text \<open>A thrown \<^verbatim>\<open>Error\<close> object with its message.\<close>

datatype exn = Error string

text \<open>
  A number of the language as far as the module computes with it: a whole number, or
  \<^verbatim>\<open>NaN\<close> (the time value of an invalid \<^verbatim>\<open>Date\<close> and everything computed from it).
  Every comparison with \<^verbatim>\<open>NaN\<close> is false.
\<close>

datatype jsnum = Num int | NaN

definition num_lt :: "jsnum \<Rightarrow> int \<Rightarrow> bool" where
  "num_lt x k = (case x of Num n \<Rightarrow> n < k | NaN \<Rightarrow> False)"

definition num_le :: "jsnum \<Rightarrow> int \<Rightarrow> bool" where
  "num_le x k = (case x of Num n \<Rightarrow> n \<le> k | NaN \<Rightarrow> False)"

text \<open>One constructor for each \<^verbatim>\<open>console.warn\<close> and \<^verbatim>\<open>console.log\<close> call of the two modules.\<close>

datatype console_msg =
    Warn_no_network_interface
  | Warn_connect_and_restart
  | Log_generated_in string
  | Log_valid_for string string
  | Log_expired_regenerating
  | Log_expires_in jsnum

text \<open>
  Everything the two modules read or change outside their own variables is kept in one
  record that each function takes and returns: the working directory, the filesystem
  (a map from paths to nodes), whether the process is privileged (user 0), whether the
  operating system refuses to create directories for it, the mode a new directory
  gets, the clock, the interface table, the subprocesses started so far (program and
  argument array), and the lines written to the console.
\<close>

record world =
  cwd :: string
  files :: "string \<rightharpoonup> node"
  privileged :: bool
  mkdir_denied :: bool
  fresh_dir_mode :: nat
  now :: int
  networkInterfaces :: interfaces
  spawned :: "(string \<times> string list) list"
  console :: "console_msg list"

text \<open>
  The end of validity of a certificate as its ASN.1 time gives it, field by field, in
  UTC. Field values outside the ranges of \<open>asn1_ok\<close> below stand for any time text
  that OpenSSL cannot read; the certificate is constructed all the same.
\<close>

record asn1_time =
  a_year :: nat
  a_month :: nat
  a_day :: nat
  a_hour :: nat
  a_minute :: nat
  a_second :: nat

record x509 =
  notAfter :: asn1_time

text \<open>
  Two library operations whose results the source only consumes are parameters: what
  a started program does (given the program, its arguments, the filesystem and the
  time, it ends with or without an error and leaves a filesystem behind), and the
  constructor \<^verbatim>\<open>new crypto.X509Certificate(pem)\<close>, which gives a certificate or throws.
\<close>

record platform =
  run_process :: "string \<Rightarrow> string list \<Rightarrow> (string \<rightharpoonup> node) \<Rightarrow> int \<Rightarrow> exn option \<times> (string \<rightharpoonup> node)"
  X509Certificate :: "string \<Rightarrow> x509 option"

section \<open>Local network identity (the network module, \<^verbatim>\<open>part_001\<close>)\<close>

subsection \<open>The pattern \<^verbatim>\<open>/^(\d{1,3}\.){3}\d{1,3}$/\<close>\<close>

text \<open>
  A pattern is a function from an input to the list of inputs that may remain after
  one way of matching a prefix, so that bounded repetition keeps every choice the
  backtracking matcher of the language could make. \<^verbatim>\<open>\d\<close> is an ASCII digit.
\<close>

type_synonym matcher = "string \<Rightarrow> string list"

definition is_digit :: "char \<Rightarrow> bool" where
  "is_digit c = (48 \<le> (of_char c :: nat) \<and> (of_char c :: nat) \<le> 57)"

definition digit :: matcher where
  "digit s = (case s of [] \<Rightarrow> [] | c # cs \<Rightarrow> if is_digit c then [cs] else [])"

definition lit :: "char \<Rightarrow> matcher" where
  "lit a s = (case s of [] \<Rightarrow> [] | c # cs \<Rightarrow> if c = a then [cs] else [])"

definition seq :: "matcher \<Rightarrow> matcher \<Rightarrow> matcher" where
  "seq p q s = concat (map q (p s))"

primrec rep_exact :: "nat \<Rightarrow> matcher \<Rightarrow> matcher" where
  "rep_exact 0 p s = [s]"
| "rep_exact (Suc n) p s = concat (map (rep_exact n p) (p s))"

primrec rep_upto :: "nat \<Rightarrow> matcher \<Rightarrow> matcher" where
  "rep_upto 0 p s = [s]"
| "rep_upto (Suc n) p s = concat (map (rep_upto n p) (p s)) @ [s]"

text \<open>\<^verbatim>\<open>p{m,n}\<close>: exactly \<open>m\<close> copies, then up to \<open>n - m\<close> more.\<close>

definition rep :: "nat \<Rightarrow> nat \<Rightarrow> matcher \<Rightarrow> matcher" where
  "rep m n p = seq (rep_exact m p) (rep_upto (n - m) p)"

text \<open>\<^verbatim>\<open>^...$\<close> without flags: the whole input must be consumed.\<close>

definition regex_test :: "matcher \<Rightarrow> string \<Rightarrow> bool" where
  "regex_test p s = ([] \<in> set (p s))"

definition IPV4_REGEX :: matcher where
  "IPV4_REGEX = seq (rep 3 3 (seq (rep 1 3 digit) (lit CHR ''.''))) (rep 1 3 digit)"

subsection \<open>\<^verbatim>\<open>isValidIPv4\<close>\<close>

text \<open>\<^verbatim>\<open>ip.split('.')\<close>: the pieces between the separators; the empty string gives one empty piece.\<close>

fun split_on :: "char \<Rightarrow> string \<Rightarrow> string list" where
  "split_on a [] = [[]]"
| "split_on a (c # cs) =
     (if c = a then [] # split_on a cs
      else (c # hd (split_on a cs)) # tl (split_on a cs))"

text \<open>
  \<^verbatim>\<open>Number\<close> is modelled on the strings it receives here: after the pattern has
  matched, every piece is a non-empty run of ASCII digits (lemma \<open>Number_after_test\<close>
  below), and its value is the decimal reading. On any other string the model gives
  \<open>None\<close>; that branch is never reached and is read as failing the range check.
\<close>

definition digit_val :: "char \<Rightarrow> nat" where
  "digit_val c = of_char c - 48"

definition dec_value :: "string \<Rightarrow> nat" where
  "dec_value s = foldl (\<lambda>acc c. 10 * acc + digit_val c) 0 s"

definition Number :: "string \<Rightarrow> nat option" where
  "Number s = (if s \<noteq> [] \<and> list_all is_digit s then Some (dec_value s) else None)"

definition octet_ok :: "nat option \<Rightarrow> bool" where
  "octet_ok v = (case v of None \<Rightarrow> False | Some octet \<Rightarrow> 0 \<le> octet \<and> octet \<le> 255)"

definition isValidIPv4 :: "string \<Rightarrow> bool" where
  "isValidIPv4 ip =
     (if \<not> regex_test IPV4_REGEX ip then False
      else let octets = map Number (split_on CHR ''.'' ip)
           in list_all octet_ok octets)"

subsection \<open>\<^verbatim>\<open>getLocalIP\<close>\<close>

text \<open>The condition of the inner loop, and the two loops with their early return.\<close>

definition qualifies :: "iface \<Rightarrow> bool" where
  "qualifies i = (family i = ''IPv4'' \<and> \<not> internal i \<and> isValidIPv4 (address i))"

fun scan_entries :: "iface list \<Rightarrow> string option" where
  "scan_entries [] = None"
| "scan_entries (i # is) = (if qualifies i then Some (address i) else scan_entries is)"

fun scan_interfaces :: "interfaces \<Rightarrow> string option" where
  "scan_interfaces [] = None"
| "scan_interfaces ((name, entries) # rest) =
     (case scan_entries (case entries of None \<Rightarrow> [] | Some es \<Rightarrow> es) of
        Some a \<Rightarrow> Some a
      | None \<Rightarrow> scan_interfaces rest)"


definition getLocalIP :: "world \<Rightarrow> string \<times> world" where
  "getLocalIP w =
     (case scan_interfaces (networkInterfaces w) of
        Some a \<Rightarrow> (a, w)
      | None \<Rightarrow>
          (''127.0.0.1'',
           w\<lparr>console := console w @ [Warn_no_network_interface, Warn_connect_and_restart]\<rparr>))"

section \<open>Certificate lifecycle (\<^verbatim>\<open>certs.ts\<close>, lines 78 to 197)\<close>

subsection \<open>Paths and permissions\<close>

text \<open>
  \<^verbatim>\<open>path.join\<close> of a directory and one name. The working directory is an absolute,
  normalised path, so joining only inserts the separator (none after the root).
\<close>

definition path_join :: "string \<Rightarrow> string \<Rightarrow> string" where
  "path_join a b = (if a = ''/'' then a @ b else a @ ''/'' @ b)"

text \<open>The directory a path lies in, and all the directories above a path up to the root.\<close>

definition dirname :: "string \<Rightarrow> string" where
  "dirname p =
     (let d = rev (tl (dropWhile (\<lambda>c. c \<noteq> CHR ''/'') (rev p)))
      in if d = [] then ''/'' else d)"

function ancestors :: "string \<Rightarrow> string list" where
  "ancestors p =
     (if length (dirname p) < length p then dirname p # ancestors (dirname p) else [])"
  by pat_completeness auto
termination
  by (relation "measure length") auto

declare ancestors.simps [simp del]

text \<open>
  The permission bits apply as POSIX prescribes: a privileged process reads and
  searches everything; for any other process the owner bits decide on its own files,
  the group bits on files of its groups, and the bits for others on the rest.
\<close>

definition owner_read :: "nat \<Rightarrow> bool" where
  "owner_read m = (m div 256 mod 2 = 1)"

definition group_read :: "nat \<Rightarrow> bool" where
  "group_read m = (m div 32 mod 2 = 1)"

definition other_read :: "nat \<Rightarrow> bool" where
  "other_read m = (m div 4 mod 2 = 1)"

definition owner_search :: "nat \<Rightarrow> bool" where
  "owner_search m = (m div 64 mod 2 = 1)"

definition group_search :: "nat \<Rightarrow> bool" where
  "group_search m = (m div 8 mod 2 = 1)"

definition other_search :: "nat \<Rightarrow> bool" where
  "other_search m = (m mod 2 = 1)"

definition can_read :: "world \<Rightarrow> node \<Rightarrow> bool" where
  "can_read w n =
     (privileged w \<or>
      (if owned n then owner_read (mode n)
       else if in_group n then group_read (mode n)
       else other_read (mode n)))"

definition can_search :: "world \<Rightarrow> node \<Rightarrow> bool" where
  "can_search w n =
     (privileged w \<or>
      (if owned n then owner_search (mode n)
       else if in_group n then group_search (mode n)
       else other_search (mode n)))"

text \<open>
  A path is reached through the directories above it: each must be there, be a
  directory, and let the process search it.
\<close>

definition passable :: "world \<Rightarrow> string \<Rightarrow> bool" where
  "passable w d =
     (case files w d of None \<Rightarrow> False | Some n \<Rightarrow> is_dir n \<and> can_search w n)"

definition reachable :: "world \<Rightarrow> string \<Rightarrow> bool" where
  "reachable w p = list_all (passable w) (ancestors p)"

subsection \<open>Library operations\<close>

text \<open>
  Looking a path up, as every operation below does first. The failures of a lookup are
  not told apart by their error text here.
\<close>

definition lookup :: "world \<Rightarrow> string \<Rightarrow> exn + node" where
  "lookup w p =
     (if \<not> reachable w p then Inl (Error ''EACCES: permission denied'')
      else case files w p of
             None \<Rightarrow> Inl (Error ''ENOENT: no such file or directory'')
           | Some n \<Rightarrow> Inr n)"

text \<open>\<^verbatim>\<open>fs.existsSync\<close> answers false on every failure of the lookup.\<close>

definition existsSync :: "world \<Rightarrow> string \<Rightarrow> bool" where
  "existsSync w p = (case lookup w p of Inl e \<Rightarrow> False | Inr n \<Rightarrow> True)"

definition readFileSync :: "world \<Rightarrow> string \<Rightarrow> exn + string" where
  "readFileSync w p =
     (case lookup w p of
        Inl e \<Rightarrow> Inl e
      | Inr n \<Rightarrow>
          if is_dir n then Inl (Error ''EISDIR: illegal operation on a directory'')
          else if \<not> can_read w n then Inl (Error ''EACCES: permission denied'')
          else Inr (content n))"

text \<open>
  \<^verbatim>\<open>fs.mkdirSync(p, { recursive: true })\<close> creates the directory and every missing
  directory above it. It is refused when the operating system denies it, when a
  directory above is in the way (a file, or not searchable), or when the path is a file.
\<close>

definition fresh_dir :: "world \<Rightarrow> node" where
  "fresh_dir w =
     \<lparr>is_dir = True, owned = True, in_group = True, mode = fresh_dir_mode w, content = []\<rparr>"

definition add_dir :: "node \<Rightarrow> string \<Rightarrow> (string \<rightharpoonup> node) \<Rightarrow> (string \<rightharpoonup> node)" where
  "add_dir d a fs = (case fs a of None \<Rightarrow> fs(a \<mapsto> d) | Some n \<Rightarrow> fs)"

definition in_the_way :: "world \<Rightarrow> string \<Rightarrow> bool" where
  "in_the_way w a =
     (case files w a of None \<Rightarrow> False | Some n \<Rightarrow> \<not> (is_dir n \<and> can_search w n))"

definition mkdir_refused :: "world \<Rightarrow> string \<Rightarrow> bool" where
  "mkdir_refused w p =
     (mkdir_denied w \<or> list_ex (in_the_way w) (ancestors p)
      \<or> (case files w p of None \<Rightarrow> False | Some n \<Rightarrow> \<not> is_dir n))"

definition mkdirSync :: "world \<Rightarrow> string \<Rightarrow> exn + world" where
  "mkdirSync w p =
     (if mkdir_refused w p then Inl (Error ''EACCES: permission denied'')
      else Inr (w\<lparr>files := foldr (add_dir (fresh_dir w)) (p # ancestors p) (files w)\<rparr>))"

text \<open>\<^verbatim>\<open>fs.chmodSync\<close>: only the owner and a privileged process may change the mode.\<close>

definition chmodSync :: "world \<Rightarrow> string \<Rightarrow> nat \<Rightarrow> exn + world" where
  "chmodSync w p m =
     (case lookup w p of
        Inl e \<Rightarrow> Inl e
      | Inr n \<Rightarrow>
          if \<not> (privileged w \<or> owned n) then Inl (Error ''EPERM: operation not permitted'')
          else Inr (w\<lparr>files := (files w)(p \<mapsto> n\<lparr>mode := m\<rparr>)\<rparr>))"

text \<open>
  \<^verbatim>\<open>execFileSync(file, args, { stdio: 'pipe' })\<close>: the start is recorded with its
  argument array, the program runs, and a missing program or a non-zero exit is thrown.
\<close>

definition execFileSync :: "platform \<Rightarrow> world \<Rightarrow> string \<Rightarrow> string list \<Rightarrow> (exn + unit) \<times> world" where
  "execFileSync P w file args =
     (case run_process P file args (files w) (now w) of
        (failure, fs) \<Rightarrow>
          (case failure of Some e \<Rightarrow> Inl e | None \<Rightarrow> Inr (),
           w\<lparr>files := fs, spawned := spawned w @ [(file, args)]\<rparr>))"

text \<open>\<^verbatim>\<open>`${error}`\<close> for an \<^verbatim>\<open>Error\<close> object, \<^verbatim>\<open>String(n)\<close> for a natural number, and \<^verbatim>\<open>join\<close>.\<close>

definition error_string :: "exn \<Rightarrow> string" where
  "error_string e = (case e of Error m \<Rightarrow> if m = [] then ''Error'' else ''Error: '' @ m)"

fun digits_of :: "nat \<Rightarrow> string" where
  "digits_of n =
     (if n < 10 then [char_of (48 + n)] else digits_of (n div 10) @ [char_of (48 + n mod 10)])"

declare digits_of.simps [simp del]

definition String :: "nat \<Rightarrow> string" where
  "String n = digits_of n"

fun join :: "string \<Rightarrow> string list \<Rightarrow> string" where
  "join sep [] = []"
| "join sep [p] = p"
| "join sep (p # q # ps) = p @ sep @ join sep (q # ps)"

subsection \<open>From the certificate to a \<^verbatim>\<open>Date\<close>\<close>

text \<open>
  \<^verbatim>\<open>cert.validTo\<close> is the text OpenSSL prints for the end of validity:
  \<^verbatim>\<open>Jan  1 00:00:00 2040 GMT\<close>, with the day padded by a space, the clock by zeros,
  and the year printed as a plain number; for a time it cannot read it prints
  \<^verbatim>\<open>Bad time value\<close>.
\<close>

definition leap_year :: "nat \<Rightarrow> bool" where
  "leap_year y = (y mod 4 = 0 \<and> (y mod 100 \<noteq> 0 \<or> y mod 400 = 0))"

definition days_in_month :: "nat \<Rightarrow> nat \<Rightarrow> nat" where
  "days_in_month y m =
     (if m = 2 then (if leap_year y then 29 else 28)
      else if m = 4 \<or> m = 6 \<or> m = 9 \<or> m = 11 then 30 else 31)"

definition asn1_ok :: "asn1_time \<Rightarrow> bool" where
  "asn1_ok t =
     (a_year t \<le> 9999 \<and> 1 \<le> a_month t \<and> a_month t \<le> 12
      \<and> 1 \<le> a_day t \<and> a_day t \<le> days_in_month (a_year t) (a_month t)
      \<and> a_hour t \<le> 23 \<and> a_minute t \<le> 59 \<and> a_second t \<le> 59)"

definition month_names :: "string list" where
  "month_names = [''Jan'', ''Feb'', ''Mar'', ''Apr'', ''May'', ''Jun'',
                  ''Jul'', ''Aug'', ''Sep'', ''Oct'', ''Nov'', ''Dec'']"

definition pad2 :: "char \<Rightarrow> nat \<Rightarrow> string" where
  "pad2 c n = (if n < 10 then c # digits_of n else digits_of n)"

definition validTo_text :: "asn1_time \<Rightarrow> string" where
  "validTo_text t =
     (if \<not> asn1_ok t then ''Bad time value''
      else month_names ! (a_month t - 1) @ '' '' @ pad2 CHR '' '' (a_day t) @ '' ''
           @ pad2 CHR ''0'' (a_hour t) @ '':'' @ pad2 CHR ''0'' (a_minute t) @ '':''
           @ pad2 CHR ''0'' (a_second t) @ '' '' @ digits_of (a_year t) @ '' GMT'')"

definition validTo :: "x509 \<Rightarrow> string" where
  "validTo cert = validTo_text (notAfter cert)"

text \<open>
  The time value of a calendar date in UTC, in milliseconds since 1 January 1970: the
  day number of the proleptic Gregorian calendar, then the clock.
\<close>

definition days_from_civil :: "int \<Rightarrow> int \<Rightarrow> int \<Rightarrow> int" where
  "days_from_civil y m d =
     (let y1 = (if m \<le> 2 then y - 1 else y);
          era = y1 div 400;
          yoe = y1 - era * 400;
          mp = (if 2 < m then m - 3 else m + 9);
          doy = (153 * mp + 2) div 5 + d - 1;
          doe = yoe * 365 + yoe div 4 - yoe div 100 + doy
      in era * 146097 + doe - 719468)"

definition utc_ms :: "nat \<Rightarrow> nat \<Rightarrow> nat \<Rightarrow> nat \<Rightarrow> nat \<Rightarrow> nat \<Rightarrow> int" where
  "utc_ms y m d h mi s =
     (((days_from_civil (int y) (int m) (int d) * 24 + int h) * 60 + int mi) * 60 + int s) * 1000"

text \<open>The instant at which the certificate really ends.\<close>

definition asn1_ms :: "asn1_time \<Rightarrow> int" where
  "asn1_ms t = utc_ms (a_year t) (a_month t) (a_day t) (a_hour t) (a_minute t) (a_second t)"

text \<open>
  \<^verbatim>\<open>new Date(text)\<close> is modelled on the two shapes of text that \<^verbatim>\<open>validTo\<close> has
  (lemma \<open>Date_parse_validTo\<close> below). The text is not an ISO date, so the parser of the
  language falls back to its lenient reading: a month name, the day, the clock with
  colons, the year, and the zone \<^verbatim>\<open>GMT\<close>; a year from 0 to 49 is taken as 2000 to
  2049 and a year from 50 to 99 as 1950 to 1999. A text without any number, such as
  \<^verbatim>\<open>Bad time value\<close>, gives an invalid date, whose time value is \<^verbatim>\<open>NaN\<close>. Every
  other text is outside the modelled fragment and is read as invalid.
\<close>

definition read_decimal :: "string \<Rightarrow> nat option" where
  "read_decimal s = (if s \<noteq> [] \<and> list_all is_digit s then Some (dec_value s) else None)"

fun index_of :: "string \<Rightarrow> string list \<Rightarrow> nat option" where
  "index_of x [] = None"
| "index_of x (y # ys) = (if x = y then Some 0 else map_option Suc (index_of x ys))"

definition two_digit_year :: "nat \<Rightarrow> nat" where
  "two_digit_year y = (if y \<le> 49 then y + 2000 else if y \<le> 99 then y + 1900 else y)"

definition Date_parse :: "string \<Rightarrow> jsnum" where
  "Date_parse s =
     (case filter (\<lambda>p. p \<noteq> []) (split_on CHR '' '' s) of
        [mon, d, hms, y, tz] \<Rightarrow>
          (case (index_of mon month_names, read_decimal d,
                 map read_decimal (split_on CHR '':'' hms), read_decimal y) of
             (Some m, Some dd, [Some h, Some mi, Some se], Some yy) \<Rightarrow>
               if tz = ''GMT'' \<and> 1 \<le> dd \<and> dd \<le> 31 \<and> h \<le> 23 \<and> mi \<le> 59 \<and> se \<le> 59
               then Num (utc_ms (two_digit_year yy) (Suc m) dd h mi se)
               else NaN
           | _ \<Rightarrow> NaN)
      | _ \<Rightarrow> NaN)"

subsection \<open>Module constants\<close>

definition CERT_DIR :: "world \<Rightarrow> string" where
  "CERT_DIR w = path_join (cwd w) ''certs''"

definition KEY_PATH :: "world \<Rightarrow> string" where
  "KEY_PATH w = path_join (CERT_DIR w) ''key.pem''"

definition CERT_PATH :: "world \<Rightarrow> string" where
  "CERT_PATH w = path_join (CERT_DIR w) ''cert.pem''"

definition CERT_VALIDITY_DAYS :: nat where
  "CERT_VALIDITY_DAYS = 365"

definition EXPIRATION_WARNING_DAYS :: int where
  "EXPIRATION_WARNING_DAYS = 30"

subsection \<open>The exported functions\<close>

record CertPaths =
  key :: string
  cert :: string

definition getCertPaths :: "world \<Rightarrow> CertPaths" where
  "getCertPaths w = \<lparr>key = KEY_PATH w, cert = CERT_PATH w\<rparr>"

definition certsExist :: "world \<Rightarrow> bool" where
  "certsExist w = (existsSync w (KEY_PATH w) \<and> existsSync w (CERT_PATH w))"

text \<open>
  The result is \<^verbatim>\<open>null\<close> (\<open>None\<close>) or a \<^verbatim>\<open>Date\<close>, given by its time value; the
  \<^verbatim>\<open>Date\<close> may be invalid.
\<close>

definition getCertExpiration :: "platform \<Rightarrow> world \<Rightarrow> jsnum option" where
  "getCertExpiration P w =
     (if \<not> existsSync w (CERT_PATH w) then None
      else case readFileSync w (CERT_PATH w) of
             Inl e \<Rightarrow> None
           | Inr certPem \<Rightarrow>
               (case X509Certificate P certPem of
                  None \<Rightarrow> None
                | Some certificate \<Rightarrow> Some (Date_parse (validTo certificate))))"

text \<open>
  Time values are whole milliseconds within the range of \<^verbatim>\<open>Date\<close>, where the
  subtraction is exact and \<^verbatim>\<open>Math.floor\<close> of the quotient is the integer division of
  HOL, which rounds towards minus infinity. An invalid \<^verbatim>\<open>Date\<close> is an object, so
  \<^verbatim>\<open>!expiration\<close> is false for it, and the arithmetic on its time value gives \<^verbatim>\<open>NaN\<close>.
\<close>

definition msPerDay :: int where
  "msPerDay = 24 * 60 * 60 * 1000"

definition getDaysUntilExpiration :: "platform \<Rightarrow> world \<Rightarrow> jsnum" where
  "getDaysUntilExpiration P w =
     (case getCertExpiration P w of
        None \<Rightarrow> Num (- 1)
      | Some expiration \<Rightarrow>
          (case expiration of
             Num t \<Rightarrow> Num ((t - now w) div msPerDay)
           | NaN \<Rightarrow> NaN))"

definition certNeedsRenewal :: "platform \<Rightarrow> world \<Rightarrow> bool" where
  "certNeedsRenewal P w =
     (let daysLeft = getDaysUntilExpiration P w
      in num_lt daysLeft 0 \<or> num_le daysLeft EXPIRATION_WARNING_DAYS)"

definition openssl_args :: "world \<Rightarrow> string \<Rightarrow> string list" where
  "openssl_args w localIP =
     (let hostname = ''sticker.local'';
          altNames = join '','' [''DNS:'' @ hostname, ''DNS:localhost'', ''IP:127.0.0.1'', ''IP:'' @ localIP];
          subject = ''/CN='' @ hostname
      in [''req'', ''-x509'',
          ''-newkey'', ''rsa:2048'',
          ''-keyout'', KEY_PATH w,
          ''-out'', CERT_PATH w,
          ''-days'', String CERT_VALIDITY_DAYS,
          ''-nodes'',
          ''-subj'', subject,
          ''-addext'', ''subjectAltName='' @ altNames])"

definition generateCerts :: "platform \<Rightarrow> world \<Rightarrow> (exn + CertPaths) \<times> world" where
  "generateCerts P w =
     (case (if \<not> existsSync w (CERT_DIR w) then mkdirSync w (CERT_DIR w) else Inr w) of
        Inl e \<Rightarrow> (Inl e, w)
      | Inr w1 \<Rightarrow>
          (case getLocalIP w1 of
             (localIP, w2) \<Rightarrow>
               (case execFileSync P w2 ''openssl'' (openssl_args w2 localIP) of
                  (Inl error, w3) \<Rightarrow>
                    (Inl (Error (''Failed to generate certificates: '' @ error_string error)), w3)
                | (Inr u, w3) \<Rightarrow>
                    (case chmodSync w3 (KEY_PATH w3) 384 of
                       Inl error \<Rightarrow>
                         (Inl (Error (''Failed to generate certificates: '' @ error_string error)), w3)
                     | Inr w4 \<Rightarrow>
                         (Inr (getCertPaths w4),
                          w4\<lparr>console := console w4 @
                               [Log_generated_in (CERT_DIR w4),
                                Log_valid_for localIP ''sticker.local'']\<rparr>)))))"

definition ensureCerts :: "platform \<Rightarrow> world \<Rightarrow> (exn + CertPaths) \<times> world" where
  "ensureCerts P w =
     (if certsExist w then
        (let daysLeft = getDaysUntilExpiration P w
         in if num_lt daysLeft 0 then
              generateCerts P (w\<lparr>console := console w @ [Log_expired_regenerating]\<rparr>)
            else if num_le daysLeft EXPIRATION_WARNING_DAYS then
              generateCerts P (w\<lparr>console := console w @ [Log_expires_in daysLeft]\<rparr>)
            else (Inr (getCertPaths w), w))
      else generateCerts P w)"

section \<open>The earlier revision kept in the sources\<close>

text \<open>
  \<^verbatim>\<open>certs.ts\<close> holds the module twice: lines 1 to 76 are an earlier revision, lines 78
  to 197 the later one, which adds the expiry functions and replaces \<^verbatim>\<open>ensureCerts\<close>;
  \<^verbatim>\<open>part_000\<close> and \<^verbatim>\<open>part_001\<close> are the network module before and after the address
  check was added. The definitions above follow the later text. The two functions that
  differ in the earlier text are modelled here under their own names
  (\<^verbatim>\<open>generateCerts\<close>, \<^verbatim>\<open>certsExist\<close> and \<^verbatim>\<open>getCertPaths\<close> are the same text in both).
\<close>

definition qualifies_rev0 :: "iface \<Rightarrow> bool" where
  "qualifies_rev0 i = (family i = ''IPv4'' \<and> \<not> internal i)"

fun scan_entries_rev0 :: "iface list \<Rightarrow> string option" where
  "scan_entries_rev0 [] = None"
| "scan_entries_rev0 (i # is) =
     (if qualifies_rev0 i then Some (address i) else scan_entries_rev0 is)"

fun scan_interfaces_rev0 :: "interfaces \<Rightarrow> string option" where
  "scan_interfaces_rev0 [] = None"
| "scan_interfaces_rev0 ((name, entries) # rest) =
     (case scan_entries_rev0 (case entries of None \<Rightarrow> [] | Some es \<Rightarrow> es) of
        Some a \<Rightarrow> Some a
      | None \<Rightarrow> scan_interfaces_rev0 rest)"

definition getLocalIP_rev0 :: "world \<Rightarrow> string \<times> world" where
  "getLocalIP_rev0 w =
     (case scan_interfaces_rev0 (networkInterfaces w) of
        Some a \<Rightarrow> (a, w)
      | None \<Rightarrow> (''127.0.0.1'', w))"

definition ensureCerts_rev0 :: "platform \<Rightarrow> world \<Rightarrow> (exn + CertPaths) \<times> world" where
  "ensureCerts_rev0 P w =
     (if certsExist w then (Inr (getCertPaths w), w) else generateCerts P w)"

section \<open>The specification's vocabulary\<close>

text \<open>
  Strict IPv4 syntax in the specification's words: four dot-separated octets, each in
  the range 0 to 255, an octet being one to three decimal digits.
\<close>

definition octet :: "string \<Rightarrow> bool" where
  "octet s = (1 \<le> length s \<and> length s \<le> 3 \<and> list_all is_digit s \<and> dec_value s \<le> 255)"

definition dotted_quad :: "string \<Rightarrow> bool" where
  "dotted_quad s = (let ps = split_on CHR ''.'' s in length ps = 4 \<and> list_all octet ps)"

text \<open>The address entries in enumeration order: interface by interface, entry by entry.\<close>

definition entries_in_order :: "interfaces \<Rightarrow> iface list" where
  "entries_in_order ifs =
     concat (map (\<lambda>(name, entries). case entries of None \<Rightarrow> [] | Some es \<Rightarrow> es) ifs)"

text \<open>
  What \<^verbatim>\<open>generateCerts\<close> meets when it is called in a world: whether creating the
  directory is refused, the filesystem the tool is started on, the invocation, and
  what the tool does then.
\<close>

definition mkdir_fails :: "world \<Rightarrow> bool" where
  "mkdir_fails w = (\<not> existsSync w (CERT_DIR w) \<and> mkdir_refused w (CERT_DIR w))"

definition files_before_tool :: "world \<Rightarrow> (string \<rightharpoonup> node)" where
  "files_before_tool w =
     (if existsSync w (CERT_DIR w) then files w
      else foldr (add_dir (fresh_dir w)) (CERT_DIR w # ancestors (CERT_DIR w)) (files w))"

definition invocation :: "world \<Rightarrow> string \<times> string list" where
  "invocation w = (''openssl'', openssl_args w (fst (getLocalIP w)))"

definition tool_outcome :: "platform \<Rightarrow> world \<Rightarrow> exn option \<times> (string \<rightharpoonup> node)" where
  "tool_outcome P w =
     run_process P (fst (invocation w)) (snd (invocation w)) (files_before_tool w) (now w)"

text \<open>
  The external tool is not part of the sources and stays a parameter of the model. What
  it is expected to do is stated on the arguments it is passed: it writes a certificate
  whose validity is the number of days passed to it, counted from now, to the output
  path passed to it. The argument after a flag:
\<close>

fun arg_after :: "string \<Rightarrow> string list \<Rightarrow> string option" where
  "arg_after flag (x # y # rest) = (if x = flag then Some y else arg_after flag (y # rest))"
| "arg_after flag [x] = None"
| "arg_after flag [] = None"

text \<open>
  The tool honours its arguments at a call when, if it reports success, the path after
  \<^verbatim>\<open>-out\<close> then leads to a regular file holding a certificate with a well-formed end
  of validity, in a year of at least 100, that lies the number of days after \<^verbatim>\<open>-days\<close>
  from now (the tool drops the fraction of the current second).
\<close>

definition ends_after_days :: "platform \<Rightarrow> world \<Rightarrow> node \<Rightarrow> nat \<Rightarrow> bool" where
  "ends_after_days P w c n =
     (\<not> is_dir c \<and>
      (case X509Certificate P (content c) of
         None \<Rightarrow> False
       | Some x \<Rightarrow>
           asn1_ok (notAfter x) \<and> 100 \<le> a_year (notAfter x)
           \<and> now w + int n * msPerDay - 1000 < asn1_ms (notAfter x)
           \<and> asn1_ms (notAfter x) \<le> now w + int n * msPerDay))"

definition tool_honours_args :: "platform \<Rightarrow> world \<Rightarrow> bool" where
  "tool_honours_args P w =
     (case tool_outcome P w of
        (Some e, fs) \<Rightarrow> True
      | (None, fs) \<Rightarrow>
          (case (arg_after ''-out'' (snd (invocation w)),
                 arg_after ''-days'' (snd (invocation w))) of
             (Some out, Some days) \<Rightarrow>
               (case (lookup (w\<lparr>files := fs\<rparr>) out, read_decimal days) of
                  (Inr c, Some n) \<Rightarrow> ends_after_days P w c n
                | _ \<Rightarrow> False)
           | _ \<Rightarrow> False))"

text \<open>Auxiliary notions of the proofs about the pattern.\<close>

definition digs13 :: "string \<Rightarrow> bool" where
  "digs13 p = (1 \<le> length p \<and> length p \<le> 3 \<and> list_all is_digit p)"

definition group :: matcher where
  "group = seq (rep 1 3 digit) (lit CHR ''.'')"

section \<open>Concrete environments\<close>

text \<open>
  A small platform and a few worlds on which the theorems below are instantiated. The
  clock stands at noon of 3 June 2026. The stand-in constructor knows five certificate
  texts by the end of validity they carry and rejects every other text:
  \<^verbatim>\<open>CERT365\<close> 365 days from now, \<^verbatim>\<open>CERT400\<close> 400 days from now, \<^verbatim>\<open>CERT30\<close> 30 days
  and one second from now, \<^verbatim>\<open>CERT-Y40\<close> the first day of the year 40, and
  \<^verbatim>\<open>CERT-BAD\<close> a time with month 13. The stand-in tool writes a key and the
  certificate \<^verbatim>\<open>CERT365\<close> to the paths passed after \<^verbatim>\<open>-keyout\<close> and \<^verbatim>\<open>-out\<close>; a file
  that is already there keeps its owner and mode, as a file opened for writing does.
\<close>

definition demo_time :: "nat \<Rightarrow> nat \<Rightarrow> nat \<Rightarrow> nat \<Rightarrow> nat \<Rightarrow> nat \<Rightarrow> asn1_time" where
  "demo_time y m d h mi s =
     \<lparr>a_year = y, a_month = m, a_day = d, a_hour = h, a_minute = mi, a_second = s\<rparr>"

definition demo_X509 :: "string \<Rightarrow> x509 option" where
  "demo_X509 pem =
     (if pem = ''CERT365'' then Some \<lparr>notAfter = demo_time 2027 6 3 12 0 0\<rparr>
      else if pem = ''CERT400'' then Some \<lparr>notAfter = demo_time 2027 7 8 12 0 0\<rparr>
      else if pem = ''CERT30'' then Some \<lparr>notAfter = demo_time 2026 7 3 12 0 1\<rparr>
      else if pem = ''CERT-Y40'' then Some \<lparr>notAfter = demo_time 40 1 1 0 0 0\<rparr>
      else if pem = ''CERT-BAD'' then Some \<lparr>notAfter = demo_time 2027 13 1 0 0 0\<rparr>
      else None)"

definition demo_file :: "nat \<Rightarrow> string \<Rightarrow> node" where
  "demo_file m c = \<lparr>is_dir = False, owned = True, in_group = True, mode = m, content = c\<rparr>"

definition demo_dir :: "nat \<Rightarrow> node" where
  "demo_dir m = \<lparr>is_dir = True, owned = True, in_group = True, mode = m, content = []\<rparr>"

definition write_file :: "(string \<rightharpoonup> node) \<Rightarrow> string \<Rightarrow> nat \<Rightarrow> string \<Rightarrow> node" where
  "write_file fs p m c = (case fs p of None \<Rightarrow> demo_file m c | Some n \<Rightarrow> n\<lparr>content := c\<rparr>)"

definition demo_tool ::
  "string \<Rightarrow> string \<Rightarrow> string list \<Rightarrow> (string \<rightharpoonup> node) \<Rightarrow> int \<Rightarrow> exn option \<times> (string \<rightharpoonup> node)" where
  "demo_tool pem file args fs t =
     (if file = ''openssl'' then
        (case (arg_after ''-keyout'' args, arg_after ''-out'' args) of
           (Some k, Some c) \<Rightarrow>
             (None, (fs(k \<mapsto> write_file fs k 384 ''KEY''))(c \<mapsto> write_file fs c 420 pem))
         | _ \<Rightarrow> (Some (Error ''Command failed: openssl''), fs))
      else (Some (Error ''spawnSync ENOENT''), fs))"

definition demo_platform :: platform where
  "demo_platform = \<lparr>run_process = demo_tool ''CERT365'', X509Certificate = demo_X509\<rparr>"

text \<open>A platform whose tool writes the certificate \<^verbatim>\<open>CERT30\<close> whatever days it is passed.\<close>

definition short_lived_platform :: platform where
  "short_lived_platform = \<lparr>run_process = demo_tool ''CERT30'', X509Certificate = demo_X509\<rparr>"

text \<open>A platform on which the tool is not installed.\<close>

definition broken_platform :: platform where
  "broken_platform =
     \<lparr>run_process = (\<lambda>file args fs t. (Some (Error ''spawnSync openssl ENOENT''), fs)),
      X509Certificate = demo_X509\<rparr>"

text \<open>
  The worlds: an unprivileged process in \<^verbatim>\<open>/app\<close>, with the root and \<^verbatim>\<open>/app\<close> as
  directories of mode \<open>0o755\<close> (493) and the given entries besides.
\<close>

definition demo_world :: "(string \<times> node) list \<Rightarrow> world" where
  "demo_world entries =
     \<lparr>cwd = ''/app'',
      files = map_of (entries @ [(''/'', demo_dir 493), (''/app'', demo_dir 493)]),
      privileged = False, mkdir_denied = False, fresh_dir_mode = 493,
      now = 1780488000000,
      networkInterfaces =
        [(''lo'', Some [\<lparr>family = ''IPv4'', internal = True, address = ''127.0.0.1''\<rparr>]),
         (''eth0'', Some [\<lparr>family = ''IPv6'', internal = False, address = ''fe80::1''\<rparr>,
                         \<lparr>family = ''IPv4'', internal = False, address = ''192.168.1.20''\<rparr>])],
      spawned = [], console = []\<rparr>"

definition fresh_world :: world where
  "fresh_world = demo_world []"

text \<open>Key and certificate in place, the certificate with the given mode and text.\<close>

definition world_with :: "nat \<Rightarrow> string \<Rightarrow> world" where
  "world_with m pem =
     demo_world [(''/app/certs'', demo_dir 493),
                 (''/app/certs/key.pem'', demo_file 384 ''KEY''),
                 (''/app/certs/cert.pem'', demo_file m pem)]"

definition world_with_cert :: "string \<Rightarrow> world" where
  "world_with_cert pem = world_with 420 pem"

text \<open>
  The certificate without any permission bit; the certificate write-only (\<open>0o200\<close>,
  128); the key alone; and both files in a directory without any permission bit.
\<close>

definition unreadable_cert_world :: world where
  "unreadable_cert_world = world_with 0 ''CERT400''"

definition write_only_cert_world :: world where
  "write_only_cert_world = world_with 128 ''CERT400''"

definition key_only_world :: world where
  "key_only_world =
     demo_world [(''/app/certs'', demo_dir 493),
                 (''/app/certs/key.pem'', demo_file 384 ''KEY'')]"

definition closed_dir_world :: world where
  "closed_dir_world =
     demo_world [(''/app/certs'', demo_dir 0),
                 (''/app/certs/key.pem'', demo_file 384 ''KEY''),
                 (''/app/certs/cert.pem'', demo_file 420 ''CERT400'')]"

text \<open>An interface table whose only external IPv4 entry carries a malformed address.\<close>

definition malformed_address_world :: world where
  "malformed_address_world =
     (demo_world [])\<lparr>networkInterfaces :=
        [(''eth0'', Some [\<lparr>family = ''IPv4'', internal = False, address = ''999.1.1.1''\<rparr>])]\<rparr>"

section \<open>What the pattern accepts\<close>

lemma set_digit: "t \<in> set (digit s) \<longleftrightarrow> (\<exists>c. s = c # t \<and> is_digit c)"
  by (cases s) (auto simp: digit_def)

lemma set_lit: "t \<in> set (lit a s) \<longleftrightarrow> s = a # t"
  by (cases s) (auto simp: lit_def)

lemma set_seq: "t \<in> set (seq p q s) \<longleftrightarrow> (\<exists>u. u \<in> set (p s) \<and> t \<in> set (q u))"
  by (auto simp: seq_def)

lemma set_rep_exact_digit:
  "t \<in> set (rep_exact n digit s) \<longleftrightarrow> (\<exists>p. s = p @ t \<and> length p = n \<and> list_all is_digit p)"
proof (induction n arbitrary: s)
  case 0
  show ?case by auto
next
  case (Suc n)
  show ?case
  proof
    assume "t \<in> set (rep_exact (Suc n) digit s)"
    then obtain u where u: "u \<in> set (digit s)" "t \<in> set (rep_exact n digit u)" by auto
    from u(1) obtain c where c: "s = c # u" "is_digit c" by (auto simp: set_digit)
    from u(2) Suc.IH obtain p where p: "u = p @ t" "length p = n" "list_all is_digit p" by blast
    have "s = (c # p) @ t \<and> length (c # p) = Suc n \<and> list_all is_digit (c # p)"
      using c p by simp
    then show "\<exists>p. s = p @ t \<and> length p = Suc n \<and> list_all is_digit p" by blast
  next
    assume "\<exists>p. s = p @ t \<and> length p = Suc n \<and> list_all is_digit p"
    then obtain p where p: "s = p @ t" "length p = Suc n" "list_all is_digit p" by blast
    then obtain c q where q: "p = c # q" by (cases p) auto
    have "q @ t \<in> set (digit s)" using p q by (simp add: set_digit)
    moreover have "t \<in> set (rep_exact n digit (q @ t))"
      using Suc.IH[of "q @ t"] p q by auto
    ultimately show "t \<in> set (rep_exact (Suc n) digit s)" by auto
  qed
qed

lemma set_rep_upto_digit:
  "t \<in> set (rep_upto n digit s) \<longleftrightarrow> (\<exists>p. s = p @ t \<and> length p \<le> n \<and> list_all is_digit p)"
proof (induction n arbitrary: s)
  case 0
  show ?case by auto
next
  case (Suc n)
  show ?case
  proof
    assume "t \<in> set (rep_upto (Suc n) digit s)"
    then consider "t = s" | u where "u \<in> set (digit s)" "t \<in> set (rep_upto n digit u)" by auto
    then show "\<exists>p. s = p @ t \<and> length p \<le> Suc n \<and> list_all is_digit p"
    proof cases
      case 1
      then have "s = [] @ t \<and> length ([]::string) \<le> Suc n \<and> list_all is_digit []" by simp
      then show ?thesis by blast
    next
      case 2
      from 2(1) obtain c where c: "s = c # u" "is_digit c" by (auto simp: set_digit)
      from 2(2) Suc.IH obtain p where p: "u = p @ t" "length p \<le> n" "list_all is_digit p" by blast
      have "s = (c # p) @ t \<and> length (c # p) \<le> Suc n \<and> list_all is_digit (c # p)"
        using c p by simp
      then show ?thesis by blast
    qed
  next
    assume "\<exists>p. s = p @ t \<and> length p \<le> Suc n \<and> list_all is_digit p"
    then obtain p where p: "s = p @ t" "length p \<le> Suc n" "list_all is_digit p" by blast
    show "t \<in> set (rep_upto (Suc n) digit s)"
    proof (cases p)
      case Nil
      then show ?thesis using p by simp
    next
      case (Cons c q)
      have "q @ t \<in> set (digit s)" using p Cons by (simp add: set_digit)
      moreover have "t \<in> set (rep_upto n digit (q @ t))"
        using Suc.IH[of "q @ t"] p Cons by auto
      ultimately show ?thesis by auto
    qed
  qed
qed

lemma set_rep13_digit: "t \<in> set (rep 1 3 digit s) \<longleftrightarrow> (\<exists>p. s = p @ t \<and> digs13 p)"
proof
  assume "t \<in> set (rep 1 3 digit s)"
  then obtain u where u: "u \<in> set (rep_exact 1 digit s)" "t \<in> set (rep_upto 2 digit u)"
    by (auto simp: rep_def set_seq)
  from u(1) obtain p where p: "s = p @ u" "length p = 1" "list_all is_digit p"
    using set_rep_exact_digit by blast
  from u(2) obtain q where q: "u = q @ t" "length q \<le> 2" "list_all is_digit q"
    using set_rep_upto_digit by blast
  have "s = (p @ q) @ t \<and> digs13 (p @ q)" using p q by (simp add: digs13_def)
  then show "\<exists>p. s = p @ t \<and> digs13 p" by blast
next
  assume "\<exists>p. s = p @ t \<and> digs13 p"
  then obtain p where p: "s = p @ t" "digs13 p" by blast
  then obtain c q where q: "p = c # q" by (cases p) (auto simp: digs13_def)
  have "q @ t \<in> set (rep_exact 1 digit s)"
    using p q set_rep_exact_digit[of "q @ t" 1 s] by (auto simp: digs13_def intro: exI[of _ "[c]"])
  moreover have "t \<in> set (rep_upto 2 digit (q @ t))"
    using p q set_rep_upto_digit[of t 2 "q @ t"] by (auto simp: digs13_def)
  ultimately show "t \<in> set (rep 1 3 digit s)" by (auto simp: rep_def set_seq)
qed

lemma set_group: "t \<in> set (group s) \<longleftrightarrow> (\<exists>p. s = p @ CHR ''.'' # t \<and> digs13 p)"
  unfolding group_def set_seq set_rep13_digit set_lit by blast

lemma rep_exact_3: "set (rep_exact 3 p s) = (\<Union>u \<in> set (p s). \<Union>v \<in> set (p u). set (p v))"
  by (simp add: numeral_3_eq_3)

lemma set_rep33_group:
  "t \<in> set (rep 3 3 group s) \<longleftrightarrow>
     (\<exists>a b c. s = a @ CHR ''.'' # b @ CHR ''.'' # c @ CHR ''.'' # t \<and> digs13 a \<and> digs13 b \<and> digs13 c)"
proof -
  have "set (rep 3 3 group s) = set (rep_exact 3 group s)"
    by (simp add: rep_def seq_def)
  also have "t \<in> set (rep_exact 3 group s) \<longleftrightarrow>
      (\<exists>u v. u \<in> set (group s) \<and> v \<in> set (group u) \<and> t \<in> set (group v))"
    unfolding rep_exact_3 by blast
  also have "\<dots> \<longleftrightarrow> (\<exists>a b c. s = a @ CHR ''.'' # b @ CHR ''.'' # c @ CHR ''.'' # t
       \<and> digs13 a \<and> digs13 b \<and> digs13 c)"
    unfolding set_group by fastforce
  finally show ?thesis .
qed

lemma regex_test_IPV4:
  "regex_test IPV4_REGEX s \<longleftrightarrow>
     (\<exists>a b c d. s = a @ CHR ''.'' # b @ CHR ''.'' # c @ CHR ''.'' # d
        \<and> digs13 a \<and> digs13 b \<and> digs13 c \<and> digs13 d)"
proof -
  have "regex_test IPV4_REGEX s \<longleftrightarrow> (\<exists>u. u \<in> set (rep 3 3 group s) \<and> [] \<in> set (rep 1 3 digit u))"
    unfolding regex_test_def IPV4_REGEX_def group_def[symmetric] set_seq ..
  also have "\<dots> \<longleftrightarrow> (\<exists>a b c d. s = a @ CHR ''.'' # b @ CHR ''.'' # c @ CHR ''.'' # d
        \<and> digs13 a \<and> digs13 b \<and> digs13 c \<and> digs13 d)"
    unfolding set_rep33_group set_rep13_digit by fastforce
  finally show ?thesis .
qed

section \<open>Splitting at the dots\<close>

lemma split_on_ne: "split_on a s \<noteq> []"
  by (induction s) auto

lemma split_on_no_sep: "a \<notin> set p \<Longrightarrow> split_on a p = [p]"
  by (induction p) auto

lemma split_on_append: "a \<notin> set p \<Longrightarrow> split_on a (p @ a # r) = p # split_on a r"
  by (induction p) auto

lemma join_split_on: "join [a] (split_on a s) = s"
proof (induction s)
  case Nil
  show ?case by simp
next
  case (Cons c cs)
  obtain p ps where ps: "split_on a cs = p # ps"
    using split_on_ne[of a cs] by (cases "split_on a cs") auto
  show ?case
  proof (cases "c = a")
    case True
    then show ?thesis using Cons ps by simp
  next
    case False
    then show ?thesis using Cons ps by (cases ps) auto
  qed
qed

lemma split_on_four:
  assumes "length (split_on a s) = 4"
  shows "\<exists>w x y z. split_on a s = [w, x, y, z] \<and> s = w @ a # x @ a # y @ a # z"
proof -
  obtain w x y z where q: "split_on a s = [w, x, y, z]"
    using assms by (auto simp: length_Suc_conv numeral_eq_Suc)
  have "join [a] [w, x, y, z] = s" using join_split_on[of a s] q by simp
  then show ?thesis using q by auto
qed

lemma digit_not_dot: "is_digit c \<Longrightarrow> c \<noteq> CHR ''.''"
  by (auto simp: is_digit_def)

lemma digs13_no_dot: "digs13 p \<Longrightarrow> CHR ''.'' \<notin> set p"
  by (auto simp: digs13_def list_all_iff dest: digit_not_dot)

lemma split_on_quad:
  assumes "digs13 a" "digs13 b" "digs13 c" "digs13 d"
  shows "split_on CHR ''.'' (a @ CHR ''.'' # b @ CHR ''.'' # c @ CHR ''.'' # d) = [a, b, c, d]"
  using assms by (simp add: split_on_append split_on_no_sep digs13_no_dot)

lemma Number_digs13: "digs13 p \<Longrightarrow> Number p = Some (dec_value p)"
  by (auto simp: Number_def digs13_def)

lemma octet_ok_Number: "digs13 p \<Longrightarrow> octet_ok (Number p) \<longleftrightarrow> octet p"
  by (auto simp: Number_digs13 octet_ok_def octet_def digs13_def)

lemma octet_digs13: "octet p \<Longrightarrow> digs13 p"
  by (simp add: octet_def digs13_def)

text \<open>After the pattern has matched, \<^verbatim>\<open>Number\<close> only sees runs of digits.\<close>

lemma Number_after_test:
  assumes "regex_test IPV4_REGEX ip"
  shows "list_all (\<lambda>piece. Number piece \<noteq> None) (split_on CHR ''.'' ip)"
proof -
  obtain a b c d where q: "ip = a @ CHR ''.'' # b @ CHR ''.'' # c @ CHR ''.'' # d"
      "digs13 a" "digs13 b" "digs13 c" "digs13 d"
    using assms unfolding regex_test_IPV4 by blast
  show ?thesis using q by (simp add: split_on_quad Number_digs13)
qed

text \<open>The check of the source accepts exactly the dotted quads of the specification.\<close>

lemma isValidIPv4_iff_dotted_quad: "isValidIPv4 ip \<longleftrightarrow> dotted_quad ip"
proof
  assume v: "isValidIPv4 ip"
  then have t: "regex_test IPV4_REGEX ip"
    and o: "list_all octet_ok (map Number (split_on CHR ''.'' ip))"
    by (auto simp: isValidIPv4_def split: if_splits)
  obtain a b c d where q: "ip = a @ CHR ''.'' # b @ CHR ''.'' # c @ CHR ''.'' # d"
      "digs13 a" "digs13 b" "digs13 c" "digs13 d"
    using t unfolding regex_test_IPV4 by blast
  have s: "split_on CHR ''.'' ip = [a, b, c, d]" using q by (simp add: split_on_quad)
  show "dotted_quad ip"
    using o q(2-) unfolding dotted_quad_def s by (simp add: octet_ok_Number)
next
  assume "dotted_quad ip"
  then have l: "length (split_on CHR ''.'' ip) = 4" and o: "list_all octet (split_on CHR ''.'' ip)"
    by (auto simp: dotted_quad_def Let_def)
  obtain a b c d where q: "split_on CHR ''.'' ip = [a, b, c, d]"
      "ip = a @ CHR ''.'' # b @ CHR ''.'' # c @ CHR ''.'' # d"
    using split_on_four[OF l] by blast
  have d: "digs13 a" "digs13 b" "digs13 c" "digs13 d" "octet a" "octet b" "octet c" "octet d"
    using o q(1) by (auto dest: octet_digs13)
  have "regex_test IPV4_REGEX ip" unfolding regex_test_IPV4 using q(2) d by blast
  then show "isValidIPv4 ip"
    using d unfolding isValidIPv4_def q(1) by (simp add: octet_ok_Number)
qed

section \<open>The resolver\<close>

lemma scan_entries_find: "scan_entries es = map_option address (find qualifies es)"
  by (induction es) auto

lemma find_append_cases:
  "find P (xs @ ys) = (case find P xs of Some x \<Rightarrow> Some x | None \<Rightarrow> find P ys)"
  by (induction xs) auto

lemma entries_in_order_Cons:
  "entries_in_order ((name, entries) # ifs) =
     (case entries of None \<Rightarrow> [] | Some es \<Rightarrow> es) @ entries_in_order ifs"
  by (simp add: entries_in_order_def)

lemma scan_interfaces_find:
  "scan_interfaces ifs = map_option address (find qualifies (entries_in_order ifs))"
proof (induction ifs)
  case Nil
  show ?case by (simp add: entries_in_order_def)
next
  case (Cons x ifs)
  obtain name entries where x: "x = (name, entries)" by (cases x)
  show ?case
    unfolding x entries_in_order_Cons
    by (simp add: find_append_cases scan_entries_find Cons.IH split: option.splits)
qed

lemma loopback_valid: "isValidIPv4 ''127.0.0.1''"
  by code_simp

lemma find_Some_holds: "find P xs = Some x \<Longrightarrow> P x"
  by (induction xs) (auto split: if_splits)

text \<open>
  Claim C5. The resolver returns the address of the first entry, in enumeration order,
  that is of the IPv4 family, not internal, and syntactically a dotted quad of four
  octets in the range 0 to 255; when no entry qualifies it returns the loopback
  address (the function is total: nothing is raised). Whatever it returns passes the
  address check of the source and is such a dotted quad.
\<close>

theorem getLocalIP_first_qualifying:
  "fst (getLocalIP w) =
     (case find (\<lambda>i. family i = ''IPv4'' \<and> \<not> internal i \<and> dotted_quad (address i))
             (entries_in_order (networkInterfaces w)) of
        Some i \<Rightarrow> address i
      | None \<Rightarrow> ''127.0.0.1'')
   \<and> isValidIPv4 (fst (getLocalIP w))
   \<and> dotted_quad (fst (getLocalIP w))"
proof -
  let ?q = "\<lambda>i. family i = ''IPv4'' \<and> \<not> internal i \<and> dotted_quad (address i)"
  have q: "qualifies = ?q"
    by (rule ext) (simp add: qualifies_def isValidIPv4_iff_dotted_quad)
  have r: "fst (getLocalIP w) =
      (case find ?q (entries_in_order (networkInterfaces w)) of
         Some i \<Rightarrow> address i | None \<Rightarrow> ''127.0.0.1'')"
    unfolding getLocalIP_def scan_interfaces_find q by (simp split: option.splits)
  have v: "isValidIPv4 (fst (getLocalIP w))"
  proof (cases "find ?q (entries_in_order (networkInterfaces w))")
    case None
    then show ?thesis using r loopback_valid by simp
  next
    case (Some i)
    then have "dotted_quad (address i)" using find_Some_holds[of ?q _ i] by blast
    then show ?thesis using r Some by (simp add: isValidIPv4_iff_dotted_quad)
  qed
  show ?thesis using r v by (simp add: isValidIPv4_iff_dotted_quad)
qed


section \<open>Reading the printed end of validity\<close>

lemma digit_val_char_of: "(k::nat) < 10 \<Longrightarrow> digit_val (char_of (48 + k)) = k"
  by (simp add: digit_val_def)

lemma is_digit_char_of: "(k::nat) < 10 \<Longrightarrow> is_digit (char_of (48 + k))"
  by (simp add: is_digit_def)

lemma dec_value_snoc: "dec_value (xs @ [c]) = 10 * dec_value xs + digit_val c"
  by (simp add: dec_value_def)

lemma digits_of_facts:
  "digits_of n \<noteq> [] \<and> list_all is_digit (digits_of n) \<and> dec_value (digits_of n) = n"
proof (induction n rule: digits_of.induct)
  case (1 n)
  show ?case
  proof (cases "n < 10")
    case True
    then have "digits_of n = [char_of (48 + n)]" by (subst digits_of.simps) simp
    then show ?thesis
      using True by (simp add: is_digit_char_of dec_value_def digit_val_char_of)
  next
    case False
    have m: "n mod 10 < 10" by simp
    have d: "digits_of n = digits_of (n div 10) @ [char_of (48 + n mod 10)]"
      using False by (subst digits_of.simps) simp
    from False 1 have ih: "digits_of (n div 10) \<noteq> []"
      "list_all is_digit (digits_of (n div 10))"
      "dec_value (digits_of (n div 10)) = n div 10"
      by simp_all
    show ?thesis
      unfolding d using ih m
      by (simp add: dec_value_snoc is_digit_char_of digit_val_char_of)
  qed
qed

lemma read_decimal_digits_of: "read_decimal (digits_of n) = Some n"
  using digits_of_facts[of n] by (simp add: read_decimal_def)

lemma is_digit_not_sep: "is_digit c \<Longrightarrow> c \<noteq> CHR '' '' \<and> c \<noteq> CHR '':''"
  by (auto simp: is_digit_def)

lemma digits_of_no_sep: "CHR '' '' \<notin> set (digits_of n) \<and> CHR '':'' \<notin> set (digits_of n)"
  using digits_of_facts[of n] by (auto simp: list_all_iff dest: is_digit_not_sep)

lemma read_decimal_pad2_zero: "read_decimal (pad2 CHR ''0'' n) = Some n"
proof (cases "n < 10")
  case True
  have "is_digit CHR ''0''" by (simp add: is_digit_def)
  moreover have "dec_value (CHR ''0'' # digits_of n) = dec_value (digits_of n)"
    by (simp add: dec_value_def digit_val_def)
  ultimately show ?thesis
    using True digits_of_facts[of n] by (simp add: pad2_def read_decimal_def)
next
  case False
  then show ?thesis by (simp add: pad2_def read_decimal_digits_of)
qed

lemma pad2_zero_no_sep:
  "CHR '' '' \<notin> set (pad2 CHR ''0'' n) \<and> CHR '':'' \<notin> set (pad2 CHR ''0'' n)
   \<and> pad2 CHR ''0'' n \<noteq> []"
  using digits_of_no_sep[of n] digits_of_facts[of n]
  by (simp add: pad2_def)

lemma month_names_checked:
  "list_all (\<lambda>i. CHR '' '' \<notin> set (month_names ! i) \<and> month_names ! i \<noteq> []
       \<and> index_of (month_names ! i) month_names = Some i) [0..<12]"
  by code_simp

lemma month_name_facts:
  assumes "i < 12"
  shows "CHR '' '' \<notin> set (month_names ! i)" "month_names ! i \<noteq> []"
    "index_of (month_names ! i) month_names = Some i"
  using assms month_names_checked unfolding list_all_iff by auto

lemma split_clock:
  "split_on CHR '':'' (pad2 CHR ''0'' h @ '':'' @ pad2 CHR ''0'' mi @ '':'' @ pad2 CHR ''0'' s)
     = [pad2 CHR ''0'' h, pad2 CHR ''0'' mi, pad2 CHR ''0'' s]"
  using pad2_zero_no_sep[of h] pad2_zero_no_sep[of mi] pad2_zero_no_sep[of s]
  by (simp add: split_on_append split_on_no_sep)

lemma words_of_printed:
  assumes "CHR '' '' \<notin> set mon" "mon \<noteq> []" "CHR '' '' \<notin> set clock" "clock \<noteq> []"
  shows "filter (\<lambda>p. p \<noteq> [])
           (split_on CHR '' '' (mon @ '' '' @ pad2 CHR '' '' d @ '' '' @ clock @ '' ''
              @ digits_of y @ '' GMT''))
         = [mon, digits_of d, clock, digits_of y, ''GMT'']"
proof -
  have g: "split_on CHR '' '' ''GMT'' = [''GMT'']" by simp
  have t: "split_on CHR '' '' (digits_of d @ CHR '' '' # clock @ CHR '' '' # digits_of y @ CHR '' '' # ''GMT'')
      = [digits_of d, clock, digits_of y, ''GMT'']"
    using assms digits_of_no_sep[of d] digits_of_no_sep[of y]
    by (simp add: split_on_append g)
  have ne: "digits_of d \<noteq> []" "digits_of y \<noteq> []"
    using digits_of_facts[of d] digits_of_facts[of y] by simp_all
  show ?thesis
  proof (cases "d < 10")
    case True
    have "split_on CHR '' '' (mon @ '' '' @ pad2 CHR '' '' d @ '' '' @ clock @ '' ''
              @ digits_of y @ '' GMT'')
        = mon # split_on CHR '' '' ([] @ CHR '' '' # (digits_of d @ CHR '' '' # clock @ CHR '' ''
              # digits_of y @ CHR '' '' # ''GMT''))"
      using True assms(1) split_on_append[of "CHR '' ''" mon] 
      by (simp add: pad2_def)
    also have "\<dots> = [mon, [], digits_of d, clock, digits_of y, ''GMT'']"
      using split_on_append[of "CHR '' ''" "[]"] t
      by (simp)
    finally show ?thesis using assms ne by (simp)
  next
    case False
    have "split_on CHR '' '' (mon @ '' '' @ pad2 CHR '' '' d @ '' '' @ clock @ '' ''
              @ digits_of y @ '' GMT'')
        = mon # split_on CHR '' '' (digits_of d @ CHR '' '' # clock @ CHR '' ''
              # digits_of y @ CHR '' '' # ''GMT'')"
      using False assms(1) split_on_append[of "CHR '' ''" mon]
      by (simp add: pad2_def)
    then show ?thesis using t assms ne by (simp)
  qed
qed

text \<open>
  What \<^verbatim>\<open>new Date(cert.validTo)\<close> gives: for a well-formed end of validity the date
  with the year read the lenient way, for any other an invalid date.
\<close>

lemma Date_parse_validTo:
  "Date_parse (validTo_text t) =
     (if asn1_ok t
      then Num (utc_ms (two_digit_year (a_year t)) (a_month t) (a_day t)
                  (a_hour t) (a_minute t) (a_second t))
      else NaN)"
proof (cases "asn1_ok t")
  case False
  have "Date_parse ''Bad time value'' = NaN" by code_simp
  then show ?thesis using False by (simp add: validTo_text_def)
next
  case True
  let ?i = "a_month t - 1"
  let ?mon = "month_names ! ?i"
  let ?clock = "pad2 CHR ''0'' (a_hour t) @ '':'' @ pad2 CHR ''0'' (a_minute t) @ '':''
      @ pad2 CHR ''0'' (a_second t)"
  have i: "?i < 12" "Suc ?i = a_month t" using True by (auto simp: asn1_ok_def)
  have d: "1 \<le> a_day t" "a_day t \<le> 31"
    using True by (auto simp: asn1_ok_def days_in_month_def split: if_splits)
  have r: "a_hour t \<le> 23" "a_minute t \<le> 59" "a_second t \<le> 59"
    using True by (auto simp: asn1_ok_def)
  have c: "CHR '' '' \<notin> set ?clock" "?clock \<noteq> []"
    using pad2_zero_no_sep[of "a_hour t"] pad2_zero_no_sep[of "a_minute t"]
      pad2_zero_no_sep[of "a_second t"] by auto
  have v: "validTo_text t = ?mon @ '' '' @ pad2 CHR '' '' (a_day t) @ '' '' @ ?clock @ '' ''
      @ digits_of (a_year t) @ '' GMT''"
    using True by (simp add: validTo_text_def)
  have w: "filter (\<lambda>p. p \<noteq> []) (split_on CHR '' '' (validTo_text t))
      = [?mon, digits_of (a_day t), ?clock, digits_of (a_year t), ''GMT'']"
    unfolding v by (rule words_of_printed[OF month_name_facts(1,2)[OF i(1)] c])
  have e1: "index_of ?mon month_names = Some ?i" by (rule month_name_facts(3)[OF i(1)])
  have e2: "read_decimal (digits_of (a_day t)) = Some (a_day t)"
    "read_decimal (digits_of (a_year t)) = Some (a_year t)"
    by (rule read_decimal_digits_of)+
  have e3: "map read_decimal (split_on CHR '':'' ?clock)
      = [Some (a_hour t), Some (a_minute t), Some (a_second t)]"
    unfolding split_clock by (simp add: read_decimal_pad2_zero)
  have "Date_parse (validTo_text t)
      = (if ''GMT'' = ''GMT'' \<and> 1 \<le> a_day t \<and> a_day t \<le> 31 \<and> a_hour t \<le> 23
            \<and> a_minute t \<le> 59 \<and> a_second t \<le> 59
         then Num (utc_ms (two_digit_year (a_year t)) (Suc ?i) (a_day t)
                     (a_hour t) (a_minute t) (a_second t))
         else NaN)"
    unfolding Date_parse_def w
    by (simp only: list.case e1 e2 e3 prod.case option.case)
  then show ?thesis unfolding i(2) using True d r by simp
qed

lemma two_digit_year_id: "100 \<le> y \<Longrightarrow> two_digit_year y = y"
  by (simp add: two_digit_year_def)

lemma Date_parse_validTo_real:
  "asn1_ok t \<Longrightarrow> 100 \<le> a_year t \<Longrightarrow> Date_parse (validTo_text t) = Num (asn1_ms t)"
  by (simp add: Date_parse_validTo two_digit_year_id asn1_ms_def)

section \<open>Facts about paths and lookups\<close>

lemma dirname_path_join:
  assumes "a \<noteq> []" "CHR ''/'' \<notin> set b"
  shows "dirname (path_join a b) = a"
proof (cases "a = ''/''")
  case True
  have "dropWhile (\<lambda>c. c \<noteq> CHR ''/'') (rev b @ ''/'') = ''/''"
    using assms(2) by (subst dropWhile_append2) auto
  then show ?thesis using True by (simp add: dirname_def path_join_def)
next
  case False
  have "dropWhile (\<lambda>c. c \<noteq> CHR ''/'') (rev b @ CHR ''/'' # rev a) = CHR ''/'' # rev a"
    using assms(2) by (subst dropWhile_append2) auto
  then show ?thesis using False assms(1) by (simp add: dirname_def path_join_def)
qed

lemma CERT_DIR_nonempty: "CERT_DIR w \<noteq> []"
  by (simp add: CERT_DIR_def path_join_def)

lemma dirname_KEY_CERT:
  "dirname (KEY_PATH w) = CERT_DIR w" "dirname (CERT_PATH w) = CERT_DIR w"
  unfolding KEY_PATH_def CERT_PATH_def
  by (rule dirname_path_join[OF CERT_DIR_nonempty], simp)+

lemma length_KEY_CERT:
  "length (CERT_DIR w) < length (KEY_PATH w)" "length (CERT_DIR w) < length (CERT_PATH w)"
  by (simp_all add: KEY_PATH_def CERT_PATH_def path_join_def)

lemma ancestors_KEY_CERT:
  "ancestors (KEY_PATH w) = CERT_DIR w # ancestors (CERT_DIR w)"
  "ancestors (CERT_PATH w) = CERT_DIR w # ancestors (CERT_DIR w)"
  by (subst ancestors.simps, simp add: dirname_KEY_CERT length_KEY_CERT)+

lemma ancestors_shorter: "a \<in> set (ancestors p) \<Longrightarrow> length a < length p"
proof (induction p rule: ancestors.induct)
  case (1 p)
  show ?case
  proof (cases "length (dirname p) < length p")
    case True
    then have "ancestors p = dirname p # ancestors (dirname p)"
      by (subst ancestors.simps) simp
    with 1 True show ?thesis by fastforce
  next
    case False
    then have "ancestors p = []" by (subst ancestors.simps) simp
    with 1 show ?thesis by simp
  qed
qed

lemma KEY_CERT_not_above:
  "KEY_PATH w \<notin> set (ancestors (KEY_PATH w))" "KEY_PATH w \<notin> set (ancestors (CERT_PATH w))"
  "CERT_PATH w \<notin> set (ancestors (KEY_PATH w))" "CERT_PATH w \<notin> set (ancestors (CERT_PATH w))"
  using ancestors_shorter[of "KEY_PATH w" "CERT_DIR w"] ancestors_shorter[of "CERT_PATH w" "CERT_DIR w"]
    length_KEY_CERT[of w]
  by (auto simp: ancestors_KEY_CERT)

lemma KEY_CERT_distinct: "KEY_PATH w \<noteq> CERT_PATH w"
  by (simp add: KEY_PATH_def CERT_PATH_def path_join_def)

text \<open>A lookup depends on the nodes above the path, on the node itself and on the privilege.\<close>

lemma passable_cong:
  "files v d = files w d \<Longrightarrow> privileged v = privileged w \<Longrightarrow> passable v d = passable w d"
  by (auto simp: passable_def can_search_def split: option.splits)

lemma reachable_cong:
  assumes "\<And>d. d \<in> set (ancestors p) \<Longrightarrow> files v d = files w d" "privileged v = privileged w"
  shows "reachable v p = reachable w p"
  unfolding reachable_def list_all_iff using assms passable_cong[of v _ w] by blast

lemma lookup_cong:
  assumes "\<And>d. d \<in> set (ancestors p) \<Longrightarrow> files v d = files w d" "files v p = files w p"
    "privileged v = privileged w"
  shows "lookup v p = lookup w p"
  unfolding lookup_def using reachable_cong[of p v w] assms by simp

lemma existsSync_iff: "existsSync w p \<longleftrightarrow> files w p \<noteq> None \<and> reachable w p"
  by (auto simp: existsSync_def lookup_def split: option.splits)

lemma lookup_Inr: "lookup w p = Inr n \<longleftrightarrow> files w p = Some n \<and> reachable w p"
  by (auto simp: lookup_def split: option.splits)

lemma chmodSync_Inr:
  "chmodSync w p m = Inr w' \<longleftrightarrow>
     (\<exists>n. lookup w p = Inr n \<and> (privileged w \<or> owned n)
          \<and> w' = w\<lparr>files := (files w)(p \<mapsto> n\<lparr>mode := m\<rparr>)\<rparr>)"
  by (cases "lookup w p") (auto simp: chmodSync_def)

lemma readFileSync_Inr:
  "readFileSync w p = Inr text \<longleftrightarrow>
     (\<exists>n. lookup w p = Inr n \<and> \<not> is_dir n \<and> can_read w n \<and> content n = text)"
  by (cases "lookup w p") (auto simp: readFileSync_def)

section \<open>Facts about the certificate module\<close>

lemma getLocalIP_fields:
  "cwd (snd (getLocalIP w)) = cwd w"
  "files (snd (getLocalIP w)) = files w"
  "now (snd (getLocalIP w)) = now w"
  "spawned (snd (getLocalIP w)) = spawned w"
  "networkInterfaces (snd (getLocalIP w)) = networkInterfaces w"
  "privileged (snd (getLocalIP w)) = privileged w"
  by (simp_all add: getLocalIP_def split: option.splits)

lemma getLocalIP_console:
  "\<exists>more. console (snd (getLocalIP w)) = console w @ more"
  by (simp add: getLocalIP_def split: option.splits)

lemma openssl_args_cwd: "cwd w' = cwd w \<Longrightarrow> openssl_args w' ip = openssl_args w ip"
  by (simp add: openssl_args_def KEY_PATH_def CERT_PATH_def CERT_DIR_def)

lemma getLocalIP_files_irrelevant: "fst (getLocalIP (w\<lparr>files := fs\<rparr>)) = fst (getLocalIP w)"
  by (simp add: getLocalIP_def split: option.splits)

lemma getLocalIP_console_irrelevant: "fst (getLocalIP (w\<lparr>console := c\<rparr>)) = fst (getLocalIP w)"
  by (simp add: getLocalIP_def split: option.splits)

lemma after_mkdir:
  assumes "\<not> mkdir_fails w"
  shows "(if \<not> existsSync w (CERT_DIR w) then mkdirSync w (CERT_DIR w) else Inr w)
           = Inr (w\<lparr>files := files_before_tool w\<rparr>)"
proof (cases "existsSync w (CERT_DIR w)")
  case True
  then show ?thesis by (simp add: files_before_tool_def)
next
  case False
  with assms have "\<not> mkdir_refused w (CERT_DIR w)" by (simp add: mkdir_fails_def)
  with False show ?thesis by (simp add: mkdirSync_def files_before_tool_def)
qed

lemma invocation_after_mkdir:
  "openssl_args (snd (getLocalIP (w\<lparr>files := fs\<rparr>))) (fst (getLocalIP (w\<lparr>files := fs\<rparr>)))
     = snd (invocation w)"
proof -
  have "cwd (snd (getLocalIP (w\<lparr>files := fs\<rparr>))) = cwd w" by (simp add: getLocalIP_fields)
  then show ?thesis
    using openssl_args_cwd[of "snd (getLocalIP (w\<lparr>files := fs\<rparr>))" w]
    by (simp add: invocation_def getLocalIP_files_irrelevant)
qed

lemma execFileSync_tool:
  "execFileSync P (snd (getLocalIP (w\<lparr>files := files_before_tool w\<rparr>))) ''openssl'' (snd (invocation w))
     = (case fst (tool_outcome P w) of Some e \<Rightarrow> Inl e | None \<Rightarrow> Inr (),
        (snd (getLocalIP (w\<lparr>files := files_before_tool w\<rparr>)))
          \<lparr>files := snd (tool_outcome P w), spawned := spawned w @ [invocation w]\<rparr>)"
  by (simp add: execFileSync_def tool_outcome_def invocation_def getLocalIP_fields
      split: prod.splits)

text \<open>\<^verbatim>\<open>generateCerts\<close> once the directory is in place, step by step.\<close>

lemma generateCerts_unfold:
  assumes "\<not> mkdir_fails w"
  shows "generateCerts P w =
    (let w2 = snd (getLocalIP (w\<lparr>files := files_before_tool w\<rparr>));
         w3 = w2\<lparr>files := snd (tool_outcome P w), spawned := spawned w @ [invocation w]\<rparr>
     in case fst (tool_outcome P w) of
          Some e \<Rightarrow> (Inl (Error (''Failed to generate certificates: '' @ error_string e)), w3)
        | None \<Rightarrow>
            (case chmodSync w3 (KEY_PATH w) 384 of
               Inl e \<Rightarrow> (Inl (Error (''Failed to generate certificates: '' @ error_string e)), w3)
             | Inr w4 \<Rightarrow>
                 (Inr (getCertPaths w),
                  w4\<lparr>console := console w4 @
                       [Log_generated_in (CERT_DIR w),
                        Log_valid_for (fst (getLocalIP w)) ''sticker.local'']\<rparr>)))"
proof -
  let ?w1 = "w\<lparr>files := files_before_tool w\<rparr>"
  obtain ip w2 where p: "getLocalIP ?w1 = (ip, w2)" by (cases "getLocalIP ?w1")
  have ip: "fst (getLocalIP w) = ip"
    using p getLocalIP_files_irrelevant[where w = w and fs = "files_before_tool w"] by simp
  have w2: "snd (getLocalIP ?w1) = w2" using p by simp
  let ?w3 = "w2\<lparr>files := snd (tool_outcome P w), spawned := spawned w @ [invocation w]\<rparr>"
  have a: "openssl_args w2 ip = snd (invocation w)"
    using invocation_after_mkdir[where w = w and fs = "files_before_tool w"] p by simp
  have e: "execFileSync P w2 ''openssl'' (snd (invocation w))
      = (case fst (tool_outcome P w) of Some e \<Rightarrow> Inl e | None \<Rightarrow> Inr (), ?w3)"
    using execFileSync_tool[of P w] unfolding w2 .
  have c: "cwd ?w3 = cwd w" using getLocalIP_fields(1)[of ?w1] unfolding w2 by simp
  have k: "KEY_PATH ?w3 = KEY_PATH w"
    using c by (simp add: KEY_PATH_def CERT_DIR_def)
  have ch: "\<And>w4. chmodSync ?w3 (KEY_PATH w) 384 = Inr w4 \<Longrightarrow>
      getCertPaths w4 = getCertPaths w \<and> CERT_DIR w4 = CERT_DIR w"
    using c by (auto simp: chmodSync_Inr getCertPaths_def KEY_PATH_def CERT_PATH_def CERT_DIR_def)
  show ?thesis
    unfolding generateCerts_def after_mkdir[OF assms] Let_def w2 ip
    by (cases "fst (tool_outcome P w)") (auto simp: p a e k dest: ch split: sum.splits)
qed

lemma generateCerts_mkdir_fails:
  "mkdir_fails w \<Longrightarrow> generateCerts P w = (Inl (Error ''EACCES: permission denied''), w)"
  by (simp add: generateCerts_def mkdir_fails_def mkdirSync_def)

lemma generateCerts_spawned:
  "spawned (snd (generateCerts P w)) =
     (if mkdir_fails w then spawned w else spawned w @ [invocation w])"
proof (cases "mkdir_fails w")
  case True
  then show ?thesis by (simp add: generateCerts_mkdir_fails)
next
  case False
  show ?thesis
    unfolding generateCerts_unfold[OF False] Let_def
    using False by (auto simp: chmodSync_Inr split: option.splits sum.splits)
qed

lemma generateCerts_console:
  "\<exists>more. console (snd (generateCerts P w)) = console w @ more"
proof (cases "mkdir_fails w")
  case True
  then show ?thesis by (simp add: generateCerts_mkdir_fails)
next
  case False
  obtain more where m: "console (snd (getLocalIP (w\<lparr>files := files_before_tool w\<rparr>))) = console w @ more"
    using getLocalIP_console[of "w\<lparr>files := files_before_tool w\<rparr>"] by auto
  show ?thesis
    unfolding generateCerts_unfold[OF False] Let_def
    by (auto simp: chmodSync_Inr m split: option.splits sum.splits)
qed

text \<open>
  The world in which \<^verbatim>\<open>chmodSync\<close> runs has the filesystem the tool left and the
  privilege of the caller, which is all a lookup depends on.
\<close>

lemma lookup_after_tool:
  "lookup ((snd (getLocalIP (w\<lparr>files := fs0\<rparr>)))\<lparr>files := fs, spawned := sp\<rparr>) p
     = lookup (w\<lparr>files := fs\<rparr>) p"
  by (rule lookup_cong) (simp_all add: getLocalIP_fields)

lemma generateCerts_Inr:
  assumes "generateCerts P w = (Inr p, w')"
  shows "\<not> mkdir_fails w"
    and "fst (tool_outcome P w) = None"
    and "p = getCertPaths w"
    and "\<exists>k. lookup (w\<lparr>files := snd (tool_outcome P w)\<rparr>) (KEY_PATH w) = Inr k
           \<and> (privileged w \<or> owned k)
           \<and> files w' = (snd (tool_outcome P w))(KEY_PATH w \<mapsto> k\<lparr>mode := 384\<rparr>)"
    and "now w' = now w"
    and "cwd w' = cwd w"
    and "privileged w' = privileged w"
proof -
  show f: "\<not> mkdir_fails w"
    using assms by (auto simp: generateCerts_mkdir_fails)
  note u = assms[unfolded generateCerts_unfold[OF f] Let_def]
  show "fst (tool_outcome P w) = None"
    using u by (auto split: option.splits)
  show "p = getCertPaths w"
    using u by (auto split: option.splits sum.splits)
  show "\<exists>k. lookup (w\<lparr>files := snd (tool_outcome P w)\<rparr>) (KEY_PATH w) = Inr k
           \<and> (privileged w \<or> owned k)
           \<and> files w' = (snd (tool_outcome P w))(KEY_PATH w \<mapsto> k\<lparr>mode := 384\<rparr>)"
    using u by (auto simp: chmodSync_Inr lookup_after_tool getLocalIP_fields
        split: option.splits sum.splits)
  show "now w' = now w"
    using u by (auto simp: chmodSync_Inr getLocalIP_fields split: option.splits sum.splits)
  show "cwd w' = cwd w"
    using u by (auto simp: chmodSync_Inr getLocalIP_fields split: option.splits sum.splits)
  show "privileged w' = privileged w"
    using u by (auto simp: chmodSync_Inr getLocalIP_fields split: option.splits sum.splits)
qed

text \<open>A line on the console changes nothing that the functions depend on.\<close>

lemma passable_console: "passable (w\<lparr>console := c\<rparr>) = passable w"
  by (rule ext) (auto simp: passable_def can_search_def split: option.splits)

lemma in_the_way_console: "in_the_way (w\<lparr>console := c\<rparr>) = in_the_way w"
  by (rule ext) (auto simp: in_the_way_def can_search_def split: option.splits)

lemma lookup_console: "lookup (w\<lparr>console := c\<rparr>) p = lookup w p"
  by (simp add: lookup_def reachable_def passable_console)

lemma existsSync_console: "existsSync (w\<lparr>console := c\<rparr>) p = existsSync w p"
  by (simp add: existsSync_def lookup_console)

lemma paths_console:
  "CERT_DIR (w\<lparr>console := c\<rparr>) = CERT_DIR w"
  "KEY_PATH (w\<lparr>console := c\<rparr>) = KEY_PATH w"
  "CERT_PATH (w\<lparr>console := c\<rparr>) = CERT_PATH w"
  "getCertPaths (w\<lparr>console := c\<rparr>) = getCertPaths w"
  by (simp_all add: CERT_DIR_def KEY_PATH_def CERT_PATH_def getCertPaths_def)

lemma console_irrelevant:
  "mkdir_fails (w\<lparr>console := c\<rparr>) = mkdir_fails w"
  "tool_outcome P (w\<lparr>console := c\<rparr>) = tool_outcome P w"
  "invocation (w\<lparr>console := c\<rparr>) = invocation w"
  "getCertPaths (w\<lparr>console := c\<rparr>) = getCertPaths w"
  "KEY_PATH (w\<lparr>console := c\<rparr>) = KEY_PATH w"
  "CERT_PATH (w\<lparr>console := c\<rparr>) = CERT_PATH w"
proof -
  show i: "invocation (w\<lparr>console := c\<rparr>) = invocation w"
    by (simp add: invocation_def openssl_args_def paths_console getLocalIP_console_irrelevant)
  show "mkdir_fails (w\<lparr>console := c\<rparr>) = mkdir_fails w"
    by (simp add: mkdir_fails_def mkdir_refused_def existsSync_console paths_console
        in_the_way_console)
  have "files_before_tool (w\<lparr>console := c\<rparr>) = files_before_tool w"
    by (simp add: files_before_tool_def existsSync_console paths_console fresh_dir_def)
  then show "tool_outcome P (w\<lparr>console := c\<rparr>) = tool_outcome P w"
    by (simp add: tool_outcome_def i)
qed (simp_all add: paths_console)

lemma getCertExpiration_cases:
  "getCertExpiration P w =
     (case readFileSync w (CERT_PATH w) of
        Inl e \<Rightarrow> None
      | Inr pem \<Rightarrow> map_option (\<lambda>x. Date_parse (validTo x)) (X509Certificate P pem))"
proof (cases "existsSync w (CERT_PATH w)")
  case True
  then show ?thesis
    by (simp add: getCertExpiration_def split: sum.splits option.splits)
next
  case False
  then have "\<exists>e. lookup w (CERT_PATH w) = Inl e"
    by (cases "lookup w (CERT_PATH w)") (auto simp: existsSync_def)
  then have "\<exists>e. readFileSync w (CERT_PATH w) = Inl e"
    by (auto simp: readFileSync_def)
  then show ?thesis using False by (auto simp: getCertExpiration_def)
qed

lemma days_le_30_iff: "(a :: int) div msPerDay \<le> 30 \<longleftrightarrow> a < 31 * msPerDay"
  unfolding msPerDay_def by simp arith

lemma certNeedsRenewal_days:
  "certNeedsRenewal P w \<longleftrightarrow> num_le (getDaysUntilExpiration P w) 30"
  by (cases "getDaysUntilExpiration P w")
     (auto simp: certNeedsRenewal_def Let_def EXPIRATION_WARNING_DAYS_def num_lt_def num_le_def)

text \<open>
  The days left in every case: the sentinel when the file cannot be read or the
  constructor throws, the floor of the time left for a well-formed end of validity
  (with the year as \<^verbatim>\<open>Date\<close> reads it), and \<^verbatim>\<open>NaN\<close> for a time that cannot be read.
\<close>

lemma getDaysUntilExpiration_sentinel:
  "readFileSync w (CERT_PATH w) = Inl e \<Longrightarrow> getDaysUntilExpiration P w = Num (- 1)"
  "readFileSync w (CERT_PATH w) = Inr pem \<Longrightarrow> X509Certificate P pem = None \<Longrightarrow>
     getDaysUntilExpiration P w = Num (- 1)"
  by (simp_all add: getDaysUntilExpiration_def getCertExpiration_cases)

lemma getDaysUntilExpiration_parsed:
  assumes "readFileSync w (CERT_PATH w) = Inr pem" "X509Certificate P pem = Some x"
  shows "getDaysUntilExpiration P w =
     (if asn1_ok (notAfter x)
      then Num ((utc_ms (two_digit_year (a_year (notAfter x))) (a_month (notAfter x))
                   (a_day (notAfter x)) (a_hour (notAfter x)) (a_minute (notAfter x))
                   (a_second (notAfter x)) - now w) div msPerDay)
      else NaN)"
  using assms
  by (simp add: getDaysUntilExpiration_def getCertExpiration_cases validTo_def Date_parse_validTo)

lemma getDaysUntilExpiration_real:
  assumes "readFileSync w (CERT_PATH w) = Inr pem" "X509Certificate P pem = Some x"
    "asn1_ok (notAfter x)" "100 \<le> a_year (notAfter x)"
  shows "getDaysUntilExpiration P w = Num ((asn1_ms (notAfter x) - now w) div msPerDay)"
  using getDaysUntilExpiration_parsed[OF assms(1,2)] assms(3,4)
  by (simp add: two_digit_year_id asn1_ms_def)

section \<open>The concrete environments, evaluated\<close>

lemma demo_X509_values:
  "X509Certificate demo_platform ''CERT365'' = Some \<lparr>notAfter = demo_time 2027 6 3 12 0 0\<rparr>"
  "X509Certificate demo_platform ''CERT400'' = Some \<lparr>notAfter = demo_time 2027 7 8 12 0 0\<rparr>"
  "X509Certificate demo_platform ''CERT30'' = Some \<lparr>notAfter = demo_time 2026 7 3 12 0 1\<rparr>"
  "X509Certificate demo_platform ''CERT-Y40'' = Some \<lparr>notAfter = demo_time 40 1 1 0 0 0\<rparr>"
  "X509Certificate demo_platform ''CERT-BAD'' = Some \<lparr>notAfter = demo_time 2027 13 1 0 0 0\<rparr>"
  "X509Certificate demo_platform ''garbage'' = None"
  by (simp_all add: demo_platform_def demo_X509_def)

lemma demo_time_values:
  "asn1_ok (demo_time 2027 6 3 12 0 0)" "asn1_ms (demo_time 2027 6 3 12 0 0) = 1812024000000"
  "asn1_ok (demo_time 2027 7 8 12 0 0)" "asn1_ms (demo_time 2027 7 8 12 0 0) = 1815048000000"
  "asn1_ok (demo_time 2026 7 3 12 0 1)" "asn1_ms (demo_time 2026 7 3 12 0 1) = 1783080001000"
  "asn1_ok (demo_time 40 1 1 0 0 0)" "asn1_ms (demo_time 40 1 1 0 0 0) = - 60904915200000"
  "\<not> asn1_ok (demo_time 2027 13 1 0 0 0)"
  by code_simp+

lemma demo_time_year:
  "a_year (demo_time y m d h mi s) = y" "a_month (demo_time y m d h mi s) = m"
  "a_day (demo_time y m d h mi s) = d" "a_hour (demo_time y m d h mi s) = h"
  "a_minute (demo_time y m d h mi s) = mi" "a_second (demo_time y m d h mi s) = s"
  by (simp_all add: demo_time_def)

lemma demo_now:
  "now (world_with_cert pem) = 1780488000000" "now (world_with m pem) = 1780488000000"
  "now fresh_world = 1780488000000"
  by (simp_all add: world_with_cert_def world_with_def fresh_world_def demo_world_def)

lemma demo_reads:
  "readFileSync (world_with_cert ''CERT400'') (CERT_PATH (world_with_cert ''CERT400'')) = Inr ''CERT400''"
  "readFileSync (world_with_cert ''CERT365'') (CERT_PATH (world_with_cert ''CERT365'')) = Inr ''CERT365''"
  "readFileSync (world_with_cert ''CERT30'') (CERT_PATH (world_with_cert ''CERT30'')) = Inr ''CERT30''"
  "readFileSync (world_with_cert ''CERT-Y40'') (CERT_PATH (world_with_cert ''CERT-Y40'')) = Inr ''CERT-Y40''"
  "readFileSync (world_with_cert ''CERT-BAD'') (CERT_PATH (world_with_cert ''CERT-BAD'')) = Inr ''CERT-BAD''"
  "readFileSync (world_with_cert ''garbage'') (CERT_PATH (world_with_cert ''garbage'')) = Inr ''garbage''"
  "readFileSync unreadable_cert_world (CERT_PATH unreadable_cert_world)
     = Inl (Error ''EACCES: permission denied'')"
  "readFileSync write_only_cert_world (CERT_PATH write_only_cert_world)
     = Inl (Error ''EACCES: permission denied'')"
  by code_simp+

lemma demo_certsExist:
  "certsExist (world_with_cert ''CERT400'')" "certsExist (world_with_cert ''CERT365'')"
  "certsExist (world_with_cert ''CERT30'')" "certsExist (world_with_cert ''CERT-Y40'')"
  "certsExist (world_with_cert ''CERT-BAD'')" "certsExist (world_with_cert ''garbage'')"
  "certsExist unreadable_cert_world" "certsExist write_only_cert_world"
  "\<not> certsExist key_only_world" "\<not> certsExist closed_dir_world" "\<not> certsExist fresh_world"
  by code_simp+

lemma demo_mkdir:
  "\<not> mkdir_fails (world_with_cert ''CERT30'')" "\<not> mkdir_fails (world_with_cert ''garbage'')"
  "\<not> mkdir_fails fresh_world" "\<not> mkdir_fails unreadable_cert_world"
  "\<not> mkdir_fails write_only_cert_world"
  by code_simp+

lemma div_floor:
  fixes a d :: int
  assumes "d * 86400000 \<le> a" "a < (d + 1) * 86400000"
  shows "a div 86400000 = d"
proof -
  define r where "r = a - d * 86400000"
  have r: "0 \<le> r" "r < 86400000" "a = r + d * 86400000"
    using assms by (simp_all add: r_def algebra_simps)
  have "a div 86400000 = r div 86400000 + d" unfolding r(3) by simp
  also have "r div 86400000 = 0" using r(1,2) by simp
  finally show ?thesis by simp
qed

lemma days_of_real:
  assumes "readFileSync w (CERT_PATH w) = Inr pem" "X509Certificate P pem = Some \<lparr>notAfter = t\<rparr>"
    "asn1_ok t" "100 \<le> a_year t" "asn1_ms t = e" "now w = n"
    "d * 86400000 \<le> e - n" "e - n < (d + 1) * 86400000"
  shows "getDaysUntilExpiration P w = Num d"
proof -
  have "(e - n) div 86400000 = d" using assms(7,8) by (rule div_floor)
  then show ?thesis
    using getDaysUntilExpiration_real[OF assms(1,2)] assms(3-6) by (simp add: msPerDay_def)
qed

lemma days_of_parsed:
  assumes "readFileSync w (CERT_PATH w) = Inr pem" "X509Certificate P pem = Some \<lparr>notAfter = t\<rparr>"
    "asn1_ok t"
    "utc_ms (two_digit_year (a_year t)) (a_month t) (a_day t) (a_hour t) (a_minute t) (a_second t) = e"
    "now w = n" "d * 86400000 \<le> e - n" "e - n < (d + 1) * 86400000"
  shows "getDaysUntilExpiration P w = Num d"
proof -
  have "(e - n) div 86400000 = d" using assms(6,7) by (rule div_floor)
  then show ?thesis
    using getDaysUntilExpiration_parsed[OF assms(1,2)] assms(3-5) by (simp add: msPerDay_def)
qed

lemma days_of_bad:
  assumes "readFileSync w (CERT_PATH w) = Inr pem" "X509Certificate P pem = Some \<lparr>notAfter = t\<rparr>"
    "\<not> asn1_ok t"
  shows "getDaysUntilExpiration P w = NaN"
  using getDaysUntilExpiration_parsed[OF assms(1,2)] assms(3) by simp

lemma demo_days:
  "getDaysUntilExpiration demo_platform (world_with_cert ''CERT400'') = Num 400"
  "getDaysUntilExpiration demo_platform (world_with_cert ''CERT365'') = Num 365"
  "getDaysUntilExpiration demo_platform (world_with_cert ''CERT30'') = Num 30"
  "getDaysUntilExpiration demo_platform (world_with_cert ''garbage'') = Num (- 1)"
  "getDaysUntilExpiration demo_platform unreadable_cert_world = Num (- 1)"
  "getDaysUntilExpiration demo_platform write_only_cert_world = Num (- 1)"
proof -
  show "getDaysUntilExpiration demo_platform (world_with_cert ''CERT400'') = Num 400"
    by (rule days_of_real[OF demo_reads(1) demo_X509_values(2) demo_time_values(3) _
          demo_time_values(4) demo_now(1)])
       (simp_all add: demo_time_year)
  show "getDaysUntilExpiration demo_platform (world_with_cert ''CERT365'') = Num 365"
    by (rule days_of_real[OF demo_reads(2) demo_X509_values(1) demo_time_values(1) _
          demo_time_values(2) demo_now(1)])
       (simp_all add: demo_time_year)
  show "getDaysUntilExpiration demo_platform (world_with_cert ''CERT30'') = Num 30"
    by (rule days_of_real[OF demo_reads(3) demo_X509_values(3) demo_time_values(5) _
          demo_time_values(6) demo_now(1)])
       (simp_all add: demo_time_year)
  show "getDaysUntilExpiration demo_platform (world_with_cert ''garbage'') = Num (- 1)"
    by (rule getDaysUntilExpiration_sentinel(2)[OF demo_reads(6) demo_X509_values(6)])
  show "getDaysUntilExpiration demo_platform unreadable_cert_world = Num (- 1)"
    by (rule getDaysUntilExpiration_sentinel(1)[OF demo_reads(7)])
  show "getDaysUntilExpiration demo_platform write_only_cert_world = Num (- 1)"
    by (rule getDaysUntilExpiration_sentinel(1)[OF demo_reads(8)])
qed

lemma demo_days_slips:
  "getDaysUntilExpiration demo_platform (world_with_cert ''CERT-Y40'') = Num 4959"
  "getDaysUntilExpiration demo_platform (world_with_cert ''CERT-BAD'') = NaN"
proof -
  have e: "utc_ms (two_digit_year (a_year (demo_time 40 1 1 0 0 0))) (a_month (demo_time 40 1 1 0 0 0))
      (a_day (demo_time 40 1 1 0 0 0)) (a_hour (demo_time 40 1 1 0 0 0))
      (a_minute (demo_time 40 1 1 0 0 0)) (a_second (demo_time 40 1 1 0 0 0)) = 2208988800000"
    by code_simp
  show "getDaysUntilExpiration demo_platform (world_with_cert ''CERT-Y40'') = Num 4959"
    by (rule days_of_parsed[OF demo_reads(4) demo_X509_values(4) demo_time_values(7) e
          demo_now(1)])
       simp_all
  show "getDaysUntilExpiration demo_platform (world_with_cert ''CERT-BAD'') = NaN"
    by (rule days_of_bad[OF demo_reads(5) demo_X509_values(5) demo_time_values(9)])
qed

section \<open>The claims\<close>

lemma ensureCerts_regenerates:
  assumes "\<not> certsExist w \<or> num_le (getDaysUntilExpiration P w) 30"
  shows "\<exists>c. ensureCerts P w = generateCerts P (w\<lparr>console := c\<rparr>)"
proof (cases "certsExist w")
  case False
  then have "ensureCerts P w = generateCerts P (w\<lparr>console := console w\<rparr>)"
    by (simp add: ensureCerts_def)
  then show ?thesis by blast
next
  case True
  with assms have d: "num_le (getDaysUntilExpiration P w) 30" by simp
  show ?thesis
  proof (cases "num_lt (getDaysUntilExpiration P w) 0")
    case True
    then have "ensureCerts P w =
        generateCerts P (w\<lparr>console := console w @ [Log_expired_regenerating]\<rparr>)"
      using \<open>certsExist w\<close> by (simp add: ensureCerts_def Let_def)
    then show ?thesis by blast
  next
    case False
    then have "ensureCerts P w = generateCerts P
        (w\<lparr>console := console w @ [Log_expires_in (getDaysUntilExpiration P w)]\<rparr>)"
      using \<open>certsExist w\<close> d by (simp add: ensureCerts_def Let_def EXPIRATION_WARNING_DAYS_def)
    then show ?thesis by blast
  qed
qed

lemma ensureCerts_reuses:
  assumes "certsExist w" "\<not> num_le (getDaysUntilExpiration P w) 30"
  shows "ensureCerts P w = (Inr (getCertPaths w), w)"
proof -
  have "\<not> num_lt (getDaysUntilExpiration P w) 0"
    using assms(2) by (cases "getDaysUntilExpiration P w") (auto simp: num_lt_def num_le_def)
  then show ?thesis
    using assms by (simp add: ensureCerts_def Let_def EXPIRATION_WARNING_DAYS_def)
qed

text \<open>
  Claim C1. When key and certificate both exist and more than 30 days are left,
  \<^verbatim>\<open>ensureCerts\<close> returns the existing paths and leaves the world as it was: no
  subprocess, no write, no console line. With 0 to 30 days left, or fewer than 0
  (which is where an unreadable or unparsable certificate lands), it prints its notice
  and runs \<^verbatim>\<open>generateCerts\<close>; when either file is missing it runs
  \<^verbatim>\<open>generateCerts\<close> at once. Running \<^verbatim>\<open>generateCerts\<close> starts the tool exactly once,
  unless the certificate directory is missing and cannot be created.
\<close>

theorem ensureCerts_decision:
  "(certsExist w \<and> getDaysUntilExpiration P w = Num d \<and> 30 < d \<longrightarrow>
      ensureCerts P w = (Inr (getCertPaths w), w))
   \<and> (certsExist w \<and> getDaysUntilExpiration P w = Num d \<and> 0 \<le> d \<and> d \<le> 30 \<longrightarrow>
      ensureCerts P w =
        generateCerts P (w\<lparr>console := console w @ [Log_expires_in (getDaysUntilExpiration P w)]\<rparr>))
   \<and> (certsExist w \<and> getDaysUntilExpiration P w = Num d \<and> d < 0 \<longrightarrow>
      ensureCerts P w = generateCerts P (w\<lparr>console := console w @ [Log_expired_regenerating]\<rparr>))
   \<and> (certsExist w \<and> getCertExpiration P w = None \<longrightarrow>
      ensureCerts P w = generateCerts P (w\<lparr>console := console w @ [Log_expired_regenerating]\<rparr>))
   \<and> (\<not> certsExist w \<longrightarrow> ensureCerts P w = generateCerts P w)
   \<and> ((\<not> certsExist w \<or> num_le (getDaysUntilExpiration P w) 30) \<and> \<not> mkdir_fails w \<longrightarrow>
      spawned (snd (ensureCerts P w)) = spawned w @ [invocation w])"
proof -
  have a: "certsExist w \<and> getDaysUntilExpiration P w = Num d \<and> 30 < d \<longrightarrow>
      ensureCerts P w = (Inr (getCertPaths w), w)"
    by (simp add: ensureCerts_def Let_def EXPIRATION_WARNING_DAYS_def num_lt_def num_le_def)
  have b: "certsExist w \<and> getDaysUntilExpiration P w = Num d \<and> 0 \<le> d \<and> d \<le> 30 \<longrightarrow>
      ensureCerts P w =
        generateCerts P (w\<lparr>console := console w @ [Log_expires_in (getDaysUntilExpiration P w)]\<rparr>)"
    by (simp add: ensureCerts_def Let_def EXPIRATION_WARNING_DAYS_def num_lt_def num_le_def)
  have c: "certsExist w \<and> getDaysUntilExpiration P w = Num d \<and> d < 0 \<longrightarrow>
      ensureCerts P w = generateCerts P (w\<lparr>console := console w @ [Log_expired_regenerating]\<rparr>)"
    by (simp add: ensureCerts_def Let_def num_lt_def)
  have d: "certsExist w \<and> getCertExpiration P w = None \<longrightarrow>
      ensureCerts P w = generateCerts P (w\<lparr>console := console w @ [Log_expired_regenerating]\<rparr>)"
    by (simp add: ensureCerts_def Let_def getDaysUntilExpiration_def num_lt_def)
  have e: "\<not> certsExist w \<longrightarrow> ensureCerts P w = generateCerts P w"
    by (simp add: ensureCerts_def)
  have f: "(\<not> certsExist w \<or> num_le (getDaysUntilExpiration P w) 30) \<and> \<not> mkdir_fails w \<longrightarrow>
      spawned (snd (ensureCerts P w)) = spawned w @ [invocation w]"
  proof
    assume h: "(\<not> certsExist w \<or> num_le (getDaysUntilExpiration P w) 30) \<and> \<not> mkdir_fails w"
    then obtain c where "ensureCerts P w = generateCerts P (w\<lparr>console := c\<rparr>)"
      using ensureCerts_regenerates by blast
    then show "spawned (snd (ensureCerts P w)) = spawned w @ [invocation w]"
      using h by (simp add: generateCerts_spawned console_irrelevant)
  qed
  show ?thesis using a b c d e f by blast
qed

theorem ensureCerts_decision_witness:
  "ensureCerts demo_platform (world_with_cert ''CERT400'')
     = (Inr \<lparr>key = ''/app/certs/key.pem'', cert = ''/app/certs/cert.pem''\<rparr>, world_with_cert ''CERT400'')
   \<and> spawned (snd (ensureCerts demo_platform (world_with_cert ''CERT30''))) = [invocation (world_with_cert ''CERT30'')]
   \<and> spawned (snd (ensureCerts demo_platform (world_with_cert ''garbage''))) = [invocation (world_with_cert ''garbage'')]
   \<and> ensureCerts demo_platform fresh_world = generateCerts demo_platform fresh_world"
proof -
  have p400: "getCertPaths (world_with_cert ''CERT400'')
         = \<lparr>key = ''/app/certs/key.pem'', cert = ''/app/certs/cert.pem''\<rparr>"
    by code_simp
  have sp: "\<And>pem. spawned (world_with_cert pem) = []"
    by (simp add: world_with_cert_def world_with_def demo_world_def)
  have 1: "ensureCerts demo_platform (world_with_cert ''CERT400'')
      = (Inr (getCertPaths (world_with_cert ''CERT400'')), world_with_cert ''CERT400'')"
  proof -
    have "(30::int) < 400" by simp
    then show ?thesis
      using ensureCerts_decision[of "world_with_cert ''CERT400''" demo_platform 400]
        demo_certsExist(1) demo_days(1)
      by blast
  qed
  have 2: "spawned (snd (ensureCerts demo_platform (world_with_cert ''CERT30'')))
      = spawned (world_with_cert ''CERT30'') @ [invocation (world_with_cert ''CERT30'')]"
  proof -
    have "num_le (getDaysUntilExpiration demo_platform (world_with_cert ''CERT30'')) 30"
      by (simp add: demo_days num_le_def)
    then show ?thesis
      using ensureCerts_decision[of "world_with_cert ''CERT30''" demo_platform] demo_mkdir(1)
      by blast
  qed
  have 3: "spawned (snd (ensureCerts demo_platform (world_with_cert ''garbage'')))
      = spawned (world_with_cert ''garbage'') @ [invocation (world_with_cert ''garbage'')]"
  proof -
    have "num_le (getDaysUntilExpiration demo_platform (world_with_cert ''garbage'')) 30"
      by (simp add: demo_days num_le_def)
    then show ?thesis
      using ensureCerts_decision[of "world_with_cert ''garbage''" demo_platform] demo_mkdir(2)
      by blast
  qed
  have 4: "ensureCerts demo_platform fresh_world = generateCerts demo_platform fresh_world"
    using ensureCerts_decision[of fresh_world demo_platform] demo_certsExist(11) by blast
  show ?thesis using 1 2 3 4 by (simp add: p400 sp)
qed

text \<open>
  Days that are not a number fall under none of the cases: both comparisons are false,
  and \<^verbatim>\<open>ensureCerts\<close> returns the existing paths.
\<close>

lemma ensureCerts_not_a_number:
  "certsExist w \<Longrightarrow> getDaysUntilExpiration P w = NaN \<Longrightarrow>
     ensureCerts P w = (Inr (getCertPaths w), w)"
  by (simp add: ensureCerts_reuses num_le_def)

lemma String_365: "String CERT_VALIDITY_DAYS = ''365''"
  by code_simp

lemma invocation_literal:
  "invocation w =
     (''openssl'',
      [''req'', ''-x509'', ''-newkey'', ''rsa:2048'', ''-keyout'', KEY_PATH w,
       ''-out'', CERT_PATH w, ''-days'', ''365'', ''-nodes'', ''-subj'', ''/CN=sticker.local'',
       ''-addext'',
       ''subjectAltName=DNS:sticker.local,DNS:localhost,IP:127.0.0.1,IP:'' @ fst (getLocalIP w)])"
  by (simp add: invocation_def openssl_args_def String_365)

text \<open>
  Claim C6. \<^verbatim>\<open>generateCerts\<close> starts the program \<^verbatim>\<open>openssl\<close> with an array of fifteen
  separate arguments, never a command line in one string: a self-signed request with a
  new RSA key of 2048 bits, the two output paths, 365 days, no passphrase
  (\<^verbatim>\<open>-nodes\<close>), the subject \<^verbatim>\<open>/CN=sticker.local\<close>, and the alternative names
  \<^verbatim>\<open>DNS:sticker.local\<close>, \<^verbatim>\<open>DNS:localhost\<close>, \<^verbatim>\<open>IP:127.0.0.1\<close> and the address resolved at
  this call, in this order. It is the only program started, and none is started when
  the certificate directory cannot be created.
\<close>

theorem generateCerts_invocation:
  "(\<not> mkdir_fails w \<longrightarrow>
      spawned (snd (generateCerts P w)) = spawned w @
        [(''openssl'',
          [''req'', ''-x509'', ''-newkey'', ''rsa:2048'', ''-keyout'', KEY_PATH w,
           ''-out'', CERT_PATH w, ''-days'', ''365'', ''-nodes'', ''-subj'', ''/CN=sticker.local'',
           ''-addext'',
           ''subjectAltName=DNS:sticker.local,DNS:localhost,IP:127.0.0.1,IP:''
             @ fst (getLocalIP w)])])
   \<and> (mkdir_fails w \<longrightarrow> spawned (snd (generateCerts P w)) = spawned w)"
proof (cases "mkdir_fails w")
  case True
  then show ?thesis by (simp add: generateCerts_spawned)
next
  case False
  then have "spawned (snd (generateCerts P w)) = spawned w @ [invocation w]"
    by (simp add: generateCerts_spawned)
  then show ?thesis using False unfolding invocation_literal by simp
qed

theorem generateCerts_invocation_witness:
  "spawned (snd (generateCerts demo_platform fresh_world)) =
     [(''openssl'',
       [''req'', ''-x509'', ''-newkey'', ''rsa:2048'', ''-keyout'', ''/app/certs/key.pem'',
        ''-out'', ''/app/certs/cert.pem'', ''-days'', ''365'', ''-nodes'', ''-subj'',
        ''/CN=sticker.local'', ''-addext'',
        ''subjectAltName=DNS:sticker.local,DNS:localhost,IP:127.0.0.1,IP:192.168.1.20''])]"
proof -
  have s: "spawned fresh_world = []" by (simp add: fresh_world_def demo_world_def)
  have k: "KEY_PATH fresh_world = ''/app/certs/key.pem''"
    and c: "CERT_PATH fresh_world = ''/app/certs/cert.pem''"
    by (simp_all add: KEY_PATH_def CERT_PATH_def CERT_DIR_def path_join_def fresh_world_def
        demo_world_def)
  have i: "fst (getLocalIP fresh_world) = ''192.168.1.20''" by code_simp
  have "spawned (snd (generateCerts demo_platform fresh_world)) = spawned fresh_world @
        [(''openssl'',
          [''req'', ''-x509'', ''-newkey'', ''rsa:2048'', ''-keyout'', KEY_PATH fresh_world,
           ''-out'', CERT_PATH fresh_world, ''-days'', ''365'', ''-nodes'', ''-subj'',
           ''/CN=sticker.local'', ''-addext'',
           ''subjectAltName=DNS:sticker.local,DNS:localhost,IP:127.0.0.1,IP:''
             @ fst (getLocalIP fresh_world)])]"
    using generateCerts_invocation[of fresh_world demo_platform] demo_mkdir(3) by blast
  then show ?thesis unfolding s k c i by simp
qed

lemma generateCerts_key_mode:
  assumes "generateCerts P w = (Inr p, w')"
  shows "\<exists>k. files w' (key p) = Some k \<and> mode k = 384 \<and> mode k AND 63 = 0"
proof -
  have p: "key p = KEY_PATH w"
    using generateCerts_Inr(3)[OF assms] by (simp add: getCertPaths_def)
  obtain k where k: "files w' = (snd (tool_outcome P w))(KEY_PATH w \<mapsto> k\<lparr>mode := 384\<rparr>)"
    using generateCerts_Inr(4)[OF assms] by blast
  have "files w' (key p) = Some (k\<lparr>mode := 384\<rparr>)" unfolding p k by simp
  moreover have "mode (k\<lparr>mode := 384\<rparr>) = 384" by simp
  moreover have "(384::nat) AND 63 = 0" by simp
  ultimately show ?thesis by auto
qed

text \<open>
  Claim C7. Whenever \<^verbatim>\<open>generateCerts\<close> returns paths, the key file at the returned
  path has mode \<open>0o600\<close> (384): owner read and write, and none of the group and other
  bits \<open>0o077\<close> (63). The same holds after every \<^verbatim>\<open>ensureCerts\<close> that had to
  generate, whether the files were missing or the certificate was due for renewal.
\<close>

theorem private_key_owner_only:
  "(generateCerts P w = (Inr p, w') \<longrightarrow>
      (\<exists>k. files w' (key p) = Some k \<and> mode k = 384 \<and> mode k AND 63 = 0))
   \<and> (ensureCerts P w = (Inr p, w')
        \<and> (\<not> certsExist w \<or> num_le (getDaysUntilExpiration P w) 30) \<longrightarrow>
      (\<exists>k. files w' (key p) = Some k \<and> mode k = 384 \<and> mode k AND 63 = 0))"
proof -
  have a: "generateCerts P w = (Inr p, w') \<longrightarrow>
      (\<exists>k. files w' (key p) = Some k \<and> mode k = 384 \<and> mode k AND 63 = 0)"
    using generateCerts_key_mode by blast
  have b: "ensureCerts P w = (Inr p, w')
        \<and> (\<not> certsExist w \<or> num_le (getDaysUntilExpiration P w) 30) \<longrightarrow>
      (\<exists>k. files w' (key p) = Some k \<and> mode k = 384 \<and> mode k AND 63 = 0)"
  proof
    assume h: "ensureCerts P w = (Inr p, w')
        \<and> (\<not> certsExist w \<or> num_le (getDaysUntilExpiration P w) 30)"
    then obtain c where "ensureCerts P w = generateCerts P (w\<lparr>console := c\<rparr>)"
      using ensureCerts_regenerates by blast
    with h have "generateCerts P (w\<lparr>console := c\<rparr>) = (Inr p, w')" by simp
    then show "\<exists>k. files w' (key p) = Some k \<and> mode k = 384 \<and> mode k AND 63 = 0"
      by (rule generateCerts_key_mode)
  qed
  show ?thesis using a b by blast
qed

lemma generated_on_fresh_world:
  "fst (generateCerts demo_platform fresh_world)
     = Inr \<lparr>key = ''/app/certs/key.pem'', cert = ''/app/certs/cert.pem''\<rparr>"
  by code_simp

theorem private_key_owner_only_witness:
  "\<exists>k. files (snd (generateCerts demo_platform fresh_world)) ''/app/certs/key.pem'' = Some k
       \<and> mode k = 384 \<and> mode k AND 63 = 0"
proof -
  let ?p = "\<lparr>key = ''/app/certs/key.pem'', cert = ''/app/certs/cert.pem''\<rparr>"
  have g: "generateCerts demo_platform fresh_world
      = (Inr ?p, snd (generateCerts demo_platform fresh_world))"
    using generated_on_fresh_world by (simp add: prod_eq_iff)
  have "\<exists>k. files (snd (generateCerts demo_platform fresh_world)) (key ?p) = Some k
       \<and> mode k = 384 \<and> mode k AND 63 = 0"
    using private_key_owner_only[of demo_platform fresh_world ?p
        "snd (generateCerts demo_platform fresh_world)"] g
    by blast
  then show ?thesis by simp
qed

text \<open>
  Whether \<^verbatim>\<open>chmodSync\<close> succeeds after the tool depends on the filesystem the tool left
  and on the privilege of the caller only.
\<close>

lemma chmodSync_after_tool:
  "(chmodSync ((snd (getLocalIP (w\<lparr>files := gs\<rparr>)))\<lparr>files := fs, spawned := sp\<rparr>) p m = Inl e)
     = (chmodSync (w\<lparr>files := fs\<rparr>) p m = Inl e)"
  "(\<exists>w4. chmodSync ((snd (getLocalIP (w\<lparr>files := gs\<rparr>)))\<lparr>files := fs, spawned := sp\<rparr>) p m = Inr w4)
     = (\<exists>w4. chmodSync (w\<lparr>files := fs\<rparr>) p m = Inr w4)"
  unfolding chmodSync_def lookup_after_tool
  by (auto simp: getLocalIP_fields split: sum.splits)

lemma fst_generateCerts_unfold:
  assumes "\<not> mkdir_fails w"
  shows "fst (generateCerts P w) =
    (case fst (tool_outcome P w) of
       Some e \<Rightarrow> Inl (Error (''Failed to generate certificates: '' @ error_string e))
     | None \<Rightarrow>
         (case chmodSync (w\<lparr>files := snd (tool_outcome P w)\<rparr>) (KEY_PATH w) 384 of
            Inl e \<Rightarrow> Inl (Error (''Failed to generate certificates: '' @ error_string e))
          | Inr w4 \<Rightarrow> Inr (getCertPaths w)))"
proof (cases "fst (tool_outcome P w)")
  case (Some e)
  then show ?thesis unfolding generateCerts_unfold[OF assms] Let_def by simp
next
  case None
  let ?w3 = "(snd (getLocalIP (w\<lparr>files := files_before_tool w\<rparr>)))
      \<lparr>files := snd (tool_outcome P w), spawned := spawned w @ [invocation w]\<rparr>"
  let ?v = "w\<lparr>files := snd (tool_outcome P w)\<rparr>"
  show ?thesis
  proof (cases "chmodSync ?v (KEY_PATH w) 384")
    case (Inl e)
    then have "chmodSync ?w3 (KEY_PATH w) 384 = Inl e" by (simp add: chmodSync_after_tool(1))
    then show ?thesis unfolding generateCerts_unfold[OF assms] Let_def using None Inl by simp
  next
    case (Inr w4)
    then obtain w5 where "chmodSync ?w3 (KEY_PATH w) 384 = Inr w5"
      using chmodSync_after_tool(2)[where w = w and gs = "files_before_tool w"
          and fs = "snd (tool_outcome P w)" and sp = "spawned w @ [invocation w]"
          and p = "KEY_PATH w" and m = 384]
      by blast
    then show ?thesis unfolding generateCerts_unfold[OF assms] Let_def using None Inr by simp
  qed
qed

lemma chmodSync_console:
  "(chmodSync (w\<lparr>console := c, files := fs\<rparr>) p m = Inl e) = (chmodSync (w\<lparr>files := fs\<rparr>) p m = Inl e)"
  "(\<exists>w4. chmodSync (w\<lparr>console := c, files := fs\<rparr>) p m = Inr w4)
     = (\<exists>w4. chmodSync (w\<lparr>files := fs\<rparr>) p m = Inr w4)"
proof -
  have l: "lookup (w\<lparr>console := c, files := fs\<rparr>) p = lookup (w\<lparr>files := fs\<rparr>) p"
    by (rule lookup_cong) simp_all
  show "(chmodSync (w\<lparr>console := c, files := fs\<rparr>) p m = Inl e) = (chmodSync (w\<lparr>files := fs\<rparr>) p m = Inl e)"
    unfolding chmodSync_def l by (auto split: sum.splits)
  show "(\<exists>w4. chmodSync (w\<lparr>console := c, files := fs\<rparr>) p m = Inr w4)
     = (\<exists>w4. chmodSync (w\<lparr>files := fs\<rparr>) p m = Inr w4)"
    unfolding chmodSync_def l by (auto split: sum.splits)
qed

lemma fst_generateCerts_console:
  "fst (generateCerts P (w\<lparr>console := c\<rparr>)) = fst (generateCerts P w)"
proof (cases "mkdir_fails w")
  case True
  then show ?thesis by (simp add: generateCerts_mkdir_fails console_irrelevant)
next
  case False
  then have f: "\<not> mkdir_fails (w\<lparr>console := c\<rparr>)" by (simp add: console_irrelevant)
  let ?fs = "snd (tool_outcome P w)"
  show ?thesis
  proof (cases "fst (tool_outcome P w)")
    case (Some e)
    then show ?thesis
      unfolding fst_generateCerts_unfold[OF f] fst_generateCerts_unfold[OF False] console_irrelevant
      by simp
  next
    case None
    show ?thesis
    proof (cases "chmodSync (w\<lparr>files := ?fs\<rparr>) (KEY_PATH w) 384")
      case (Inl e)
      then have "chmodSync (w\<lparr>console := c, files := ?fs\<rparr>) (KEY_PATH w) 384 = Inl e"
        by (simp add: chmodSync_console(1))
      then show ?thesis
        unfolding fst_generateCerts_unfold[OF f] fst_generateCerts_unfold[OF False] console_irrelevant
        using Inl None by simp
    next
      case (Inr w4)
      then obtain w5 where "chmodSync (w\<lparr>console := c, files := ?fs\<rparr>) (KEY_PATH w) 384 = Inr w5"
        using chmodSync_console(2)[where w = w and c = c and fs = ?fs and p = "KEY_PATH w" and m = 384]
        by blast
      then show ?thesis
        unfolding fst_generateCerts_unfold[OF f] fst_generateCerts_unfold[OF False] console_irrelevant
        using Inr None by simp
    qed
  qed
qed

text \<open>
  Claim C8. A failure during generation comes out of \<^verbatim>\<open>generateCerts\<close> as a thrown
  \<^verbatim>\<open>Error\<close>: when the tool cannot be started or exits with an error, and when the
  permission change fails, the error is wrapped with the prefix
  \<^verbatim>\<open>Failed to generate certificates:\<close>; when the directory cannot be created, the
  error of \<^verbatim>\<open>mkdirSync\<close> is thrown as it is. Paths are returned only when no step
  failed. \<^verbatim>\<open>ensureCerts\<close>, whenever it has to generate (a file missing, or at most 30
  days left), yields exactly the outcome of \<^verbatim>\<open>generateCerts\<close>, so a failure is thrown
  on and no path is returned.
\<close>

theorem generation_failure_surfaces:
  "(mkdir_fails w \<longrightarrow> fst (generateCerts P w) = Inl (Error ''EACCES: permission denied''))
   \<and> (\<not> mkdir_fails w \<and> fst (tool_outcome P w) = Some e \<longrightarrow>
        fst (generateCerts P w)
          = Inl (Error (''Failed to generate certificates: '' @ error_string e)))
   \<and> (\<not> mkdir_fails w \<and> fst (tool_outcome P w) = None
        \<and> chmodSync (w\<lparr>files := snd (tool_outcome P w)\<rparr>) (KEY_PATH w) 384 = Inl e \<longrightarrow>
        fst (generateCerts P w)
          = Inl (Error (''Failed to generate certificates: '' @ error_string e)))
   \<and> (fst (generateCerts P w) = Inr p \<longrightarrow>
        \<not> mkdir_fails w \<and> fst (tool_outcome P w) = None
        \<and> (\<exists>w4. chmodSync (w\<lparr>files := snd (tool_outcome P w)\<rparr>) (KEY_PATH w) 384 = Inr w4))
   \<and> (\<not> certsExist w \<or> num_le (getDaysUntilExpiration P w) 30 \<longrightarrow>
        fst (ensureCerts P w) = fst (generateCerts P w))"
proof -
  have a: "mkdir_fails w \<longrightarrow> fst (generateCerts P w) = Inl (Error ''EACCES: permission denied'')"
    by (simp add: generateCerts_mkdir_fails)
  have b: "\<not> mkdir_fails w \<and> fst (tool_outcome P w) = Some e \<longrightarrow>
        fst (generateCerts P w)
          = Inl (Error (''Failed to generate certificates: '' @ error_string e))"
    by (simp add: fst_generateCerts_unfold)
  have c: "\<not> mkdir_fails w \<and> fst (tool_outcome P w) = None
        \<and> chmodSync (w\<lparr>files := snd (tool_outcome P w)\<rparr>) (KEY_PATH w) 384 = Inl e \<longrightarrow>
        fst (generateCerts P w)
          = Inl (Error (''Failed to generate certificates: '' @ error_string e))"
    by (simp add: fst_generateCerts_unfold)
  have d: "fst (generateCerts P w) = Inr p \<longrightarrow>
        \<not> mkdir_fails w \<and> fst (tool_outcome P w) = None
        \<and> (\<exists>w4. chmodSync (w\<lparr>files := snd (tool_outcome P w)\<rparr>) (KEY_PATH w) 384 = Inr w4)"
  proof
    assume h: "fst (generateCerts P w) = Inr p"
    have m: "\<not> mkdir_fails w" using h by (auto simp: generateCerts_mkdir_fails)
    show "\<not> mkdir_fails w \<and> fst (tool_outcome P w) = None
        \<and> (\<exists>w4. chmodSync (w\<lparr>files := snd (tool_outcome P w)\<rparr>) (KEY_PATH w) 384 = Inr w4)"
      using h m unfolding fst_generateCerts_unfold[OF m]
      by (auto split: option.splits sum.splits)
  qed
  have e: "\<not> certsExist w \<or> num_le (getDaysUntilExpiration P w) 30 \<longrightarrow>
        fst (ensureCerts P w) = fst (generateCerts P w)"
  proof
    assume "\<not> certsExist w \<or> num_le (getDaysUntilExpiration P w) 30"
    then obtain c where "ensureCerts P w = generateCerts P (w\<lparr>console := c\<rparr>)"
      using ensureCerts_regenerates by blast
    then show "fst (ensureCerts P w) = fst (generateCerts P w)"
      by (simp add: fst_generateCerts_console)
  qed
  show ?thesis using a b c d e by blast
qed

theorem generation_failure_surfaces_witness:
  "fst (ensureCerts broken_platform (world_with_cert ''garbage''))
     = Inl (Error ''Failed to generate certificates: Error: spawnSync openssl ENOENT'')
   \<and> fst (generateCerts broken_platform fresh_world)
     = Inl (Error ''Failed to generate certificates: Error: spawnSync openssl ENOENT'')"
proof -
  let ?e = "Error ''spawnSync openssl ENOENT''"
  have t: "fst (tool_outcome broken_platform w) = Some ?e" for w
    by (simp add: tool_outcome_def broken_platform_def)
  have s: "error_string ?e = ''Error: spawnSync openssl ENOENT''"
    by (simp add: error_string_def)
  have x: "X509Certificate broken_platform ''garbage'' = None"
    by (simp add: broken_platform_def demo_X509_def)
  have d: "getDaysUntilExpiration broken_platform (world_with_cert ''garbage'') = Num (- 1)"
    by (rule getDaysUntilExpiration_sentinel(2)[OF demo_reads(6) x])
  have g: "fst (generateCerts broken_platform w)
      = Inl (Error (''Failed to generate certificates: '' @ error_string ?e))"
    if "\<not> mkdir_fails w" for w
    using generation_failure_surfaces[of w broken_platform ?e] that t[of w] by blast
  have "num_le (getDaysUntilExpiration broken_platform (world_with_cert ''garbage'')) 30"
    using d by (simp add: num_le_def)
  then have "fst (ensureCerts broken_platform (world_with_cert ''garbage''))
      = fst (generateCerts broken_platform (world_with_cert ''garbage''))"
    using generation_failure_surfaces[of "world_with_cert ''garbage''" broken_platform] by blast
  then show ?thesis using g[OF demo_mkdir(2)] g[OF demo_mkdir(3)] by (simp add: s)
qed

lemma generateCerts_not_silent:
  "generateCerts P (w\<lparr>console := console w @ [line]\<rparr>) \<noteq> (r, w)"
proof
  assume h: "generateCerts P (w\<lparr>console := console w @ [line]\<rparr>) = (r, w)"
  obtain more where "console (snd (generateCerts P (w\<lparr>console := console w @ [line]\<rparr>)))
      = console (w\<lparr>console := console w @ [line]\<rparr>) @ more"
    using generateCerts_console by blast
  then have "console w = console w @ [line] @ more" using h by simp
  then show False by simp
qed

text \<open>
  Claim C10. With both files present, the comparison written out in \<^verbatim>\<open>ensureCerts\<close>
  decides as \<^verbatim>\<open>certNeedsRenewal\<close> does: when \<^verbatim>\<open>certNeedsRenewal\<close> is true,
  \<^verbatim>\<open>ensureCerts\<close> prints one line and runs \<^verbatim>\<open>generateCerts\<close>; when it is false,
  \<^verbatim>\<open>ensureCerts\<close> returns the existing paths and changes nothing; and the second
  outcome occurs only in the second case.
\<close>

theorem ensureCerts_agrees_with_certNeedsRenewal:
  "certsExist w \<longrightarrow>
     (certNeedsRenewal P w \<longrightarrow>
        (\<exists>line. ensureCerts P w = generateCerts P (w\<lparr>console := console w @ [line]\<rparr>)))
     \<and> (\<not> certNeedsRenewal P w \<longrightarrow> ensureCerts P w = (Inr (getCertPaths w), w))
     \<and> ((ensureCerts P w = (Inr (getCertPaths w), w)) = (\<not> certNeedsRenewal P w))"
proof
  assume e: "certsExist w"
  have a: "certNeedsRenewal P w \<longrightarrow>
        (\<exists>line. ensureCerts P w = generateCerts P (w\<lparr>console := console w @ [line]\<rparr>))"
  proof
    assume "certNeedsRenewal P w"
    then have d: "num_le (getDaysUntilExpiration P w) 30" by (simp add: certNeedsRenewal_days)
    show "\<exists>line. ensureCerts P w = generateCerts P (w\<lparr>console := console w @ [line]\<rparr>)"
    proof (cases "num_lt (getDaysUntilExpiration P w) 0")
      case True
      then have "ensureCerts P w =
          generateCerts P (w\<lparr>console := console w @ [Log_expired_regenerating]\<rparr>)"
        using e by (simp add: ensureCerts_def Let_def)
      then show ?thesis by blast
    next
      case False
      then have "ensureCerts P w = generateCerts P
          (w\<lparr>console := console w @ [Log_expires_in (getDaysUntilExpiration P w)]\<rparr>)"
        using e d by (simp add: ensureCerts_def Let_def EXPIRATION_WARNING_DAYS_def)
      then show ?thesis by blast
    qed
  qed
  have b: "\<not> certNeedsRenewal P w \<longrightarrow> ensureCerts P w = (Inr (getCertPaths w), w)"
    using e ensureCerts_reuses[of w P] by (simp add: certNeedsRenewal_days)
  have c: "(ensureCerts P w = (Inr (getCertPaths w), w)) = (\<not> certNeedsRenewal P w)"
    using a b generateCerts_not_silent by metis
  show "(certNeedsRenewal P w \<longrightarrow>
        (\<exists>line. ensureCerts P w = generateCerts P (w\<lparr>console := console w @ [line]\<rparr>)))
     \<and> (\<not> certNeedsRenewal P w \<longrightarrow> ensureCerts P w = (Inr (getCertPaths w), w))
     \<and> ((ensureCerts P w = (Inr (getCertPaths w), w)) = (\<not> certNeedsRenewal P w))"
    using a b c by blast
qed

theorem ensureCerts_agrees_with_certNeedsRenewal_witness:
  "(ensureCerts demo_platform (world_with_cert ''CERT400'')
      = (Inr (getCertPaths (world_with_cert ''CERT400'')), world_with_cert ''CERT400''))
   \<and> \<not> certNeedsRenewal demo_platform (world_with_cert ''CERT400'')
   \<and> (ensureCerts demo_platform (world_with_cert ''CERT30'')
      \<noteq> (Inr (getCertPaths (world_with_cert ''CERT30'')), world_with_cert ''CERT30''))
   \<and> certNeedsRenewal demo_platform (world_with_cert ''CERT30'')"
proof -
  have n: "\<not> certNeedsRenewal demo_platform (world_with_cert ''CERT400'')"
    "certNeedsRenewal demo_platform (world_with_cert ''CERT30'')"
    by (simp_all add: certNeedsRenewal_days demo_days num_le_def)
  show ?thesis
    using ensureCerts_agrees_with_certNeedsRenewal[of "world_with_cert ''CERT400''" demo_platform]
      ensureCerts_agrees_with_certNeedsRenewal[of "world_with_cert ''CERT30''" demo_platform]
      demo_certsExist(1) demo_certsExist(3) n
    by blast
qed

text \<open>
  Claim C2 (amended). \<^verbatim>\<open>certNeedsRenewal\<close> is true exactly when the days left are below
  0 or at most 30. The days are the floor of the remaining time. So for a certificate
  that is read and parsed, and whose end of validity is a well-formed time in a year of
  at least 100 (which \<^verbatim>\<open>new Date\<close> reads back from the printed text as the same
  instant), the answer is true exactly when the end of validity is less than 31 days
  after now: renewal is refused only from 31 full days on; at exactly 30 days, at any
  moment between 30 and 31 days, and for every end of validity in the past, the answer
  is true.
\<close>

theorem certNeedsRenewal_threshold:
  "(certNeedsRenewal P w \<longleftrightarrow>
      num_lt (getDaysUntilExpiration P w) 0 \<or> num_le (getDaysUntilExpiration P w) 30)
   \<and> (readFileSync w (CERT_PATH w) = Inr pem \<and> X509Certificate P pem = Some x
       \<and> asn1_ok (notAfter x) \<and> 100 \<le> a_year (notAfter x) \<longrightarrow>
        (certNeedsRenewal P w \<longleftrightarrow> asn1_ms (notAfter x) - now w < 31 * msPerDay))"
proof -
  have a: "certNeedsRenewal P w \<longleftrightarrow>
      num_lt (getDaysUntilExpiration P w) 0 \<or> num_le (getDaysUntilExpiration P w) 30"
    by (simp add: certNeedsRenewal_def Let_def EXPIRATION_WARNING_DAYS_def)
  have b: "readFileSync w (CERT_PATH w) = Inr pem \<and> X509Certificate P pem = Some x
       \<and> asn1_ok (notAfter x) \<and> 100 \<le> a_year (notAfter x) \<longrightarrow>
        (certNeedsRenewal P w \<longleftrightarrow> asn1_ms (notAfter x) - now w < 31 * msPerDay)"
  proof
    assume h: "readFileSync w (CERT_PATH w) = Inr pem \<and> X509Certificate P pem = Some x
       \<and> asn1_ok (notAfter x) \<and> 100 \<le> a_year (notAfter x)"
    then have "getDaysUntilExpiration P w = Num ((asn1_ms (notAfter x) - now w) div msPerDay)"
      using getDaysUntilExpiration_real[of w pem P x] by blast
    then show "certNeedsRenewal P w \<longleftrightarrow> asn1_ms (notAfter x) - now w < 31 * msPerDay"
      by (simp add: certNeedsRenewal_days num_le_def days_le_30_iff)
  qed
  show ?thesis using a b by blast
qed

theorem certNeedsRenewal_threshold_witness:
  "certNeedsRenewal demo_platform (world_with_cert ''CERT30'')
   \<and> \<not> certNeedsRenewal demo_platform (world_with_cert ''CERT400'')"
proof -
  let ?x30 = "\<lparr>notAfter = demo_time 2026 7 3 12 0 1\<rparr>"
  let ?x400 = "\<lparr>notAfter = demo_time 2027 7 8 12 0 0\<rparr>"
  have ok: "asn1_ok (notAfter ?x30)" "asn1_ok (notAfter ?x400)"
    by (simp_all only: x509.select_convs demo_time_values)
  have y: "100 \<le> a_year (notAfter ?x30)" "100 \<le> a_year (notAfter ?x400)"
    by (simp_all add: demo_time_year)
  have "certNeedsRenewal demo_platform (world_with_cert ''CERT30'')
      \<longleftrightarrow> asn1_ms (notAfter ?x30) - now (world_with_cert ''CERT30'') < 31 * msPerDay"
    using certNeedsRenewal_threshold[of demo_platform "world_with_cert ''CERT30''" "''CERT30''" ?x30]
      demo_reads(3) demo_X509_values(3) ok(1) y(1)
    by blast
  then have 1: "certNeedsRenewal demo_platform (world_with_cert ''CERT30'')"
    by (simp only: x509.select_convs demo_time_values demo_now) (simp add: msPerDay_def)
  have "certNeedsRenewal demo_platform (world_with_cert ''CERT400'')
      \<longleftrightarrow> asn1_ms (notAfter ?x400) - now (world_with_cert ''CERT400'') < 31 * msPerDay"
    using certNeedsRenewal_threshold[of demo_platform "world_with_cert ''CERT400''" "''CERT400''" ?x400]
      demo_reads(1) demo_X509_values(2) ok(2) y(2)
    by blast
  then have 2: "\<not> certNeedsRenewal demo_platform (world_with_cert ''CERT400'')"
    by (simp only: x509.select_convs demo_time_values demo_now) (simp add: msPerDay_def)
  show ?thesis using 1 2 by simp
qed

text \<open>
  The claim as it was stated fails: the certificate below ends 30 days and one second
  from now, which is more than 30 days in the future, and \<^verbatim>\<open>certNeedsRenewal\<close> is
  true.
\<close>

theorem certNeedsRenewal_over_30_days_counterexample:
  "readFileSync (world_with_cert ''CERT30'') (CERT_PATH (world_with_cert ''CERT30'')) = Inr ''CERT30''
   \<and> X509Certificate demo_platform ''CERT30'' = Some \<lparr>notAfter = demo_time 2026 7 3 12 0 1\<rparr>
   \<and> asn1_ms (demo_time 2026 7 3 12 0 1) - now (world_with_cert ''CERT30'') = 30 * msPerDay + 1000
   \<and> certNeedsRenewal demo_platform (world_with_cert ''CERT30'') = True"
proof -
  have "asn1_ms (demo_time 2026 7 3 12 0 1) - now (world_with_cert ''CERT30'') = 30 * msPerDay + 1000"
    by (simp only: demo_time_values demo_now) (simp add: msPerDay_def)
  moreover have "certNeedsRenewal demo_platform (world_with_cert ''CERT30'')"
    by (simp add: certNeedsRenewal_days demo_days num_le_def)
  ultimately show ?thesis using demo_reads(3) demo_X509_values(3) by blast
qed

text \<open>
  Outside the amended claim: a certificate that ended in the year 40 is read as ending
  in 2040, and one whose time is malformed gives \<^verbatim>\<open>NaN\<close> days; for both
  \<^verbatim>\<open>certNeedsRenewal\<close> is false.
\<close>

lemma certNeedsRenewal_misread_dates:
  "\<not> certNeedsRenewal demo_platform (world_with_cert ''CERT-Y40'')"
  "\<not> certNeedsRenewal demo_platform (world_with_cert ''CERT-BAD'')"
  by (simp_all add: certNeedsRenewal_days demo_days_slips num_le_def)

text \<open>
  Claim C3. The claim has \<^verbatim>\<open>getDaysUntilExpiration\<close> return the floor of the time from
  now to the end of validity, in days, for every certificate that is read and parsed.
  The code goes through the printed text of the end of validity, and \<^verbatim>\<open>new Date\<close>
  reads a year below 100 as a year of the twentieth or twenty-first century. On the
  certificate below, which ended on 1 January of the year 40 and is read on 3 June
  2026, the text is \<^verbatim>\<open>Jan  1 00:00:00 40 GMT\<close>, the code returns 4959 days, and the
  floor of the time left is -725526 days.
\<close>

theorem getDaysUntilExpiration_two_digit_year:
  "readFileSync (world_with_cert ''CERT-Y40'') (CERT_PATH (world_with_cert ''CERT-Y40'')) = Inr ''CERT-Y40''
   \<and> X509Certificate demo_platform ''CERT-Y40'' = Some \<lparr>notAfter = demo_time 40 1 1 0 0 0\<rparr>
   \<and> validTo \<lparr>notAfter = demo_time 40 1 1 0 0 0\<rparr> = ''Jan  1 00:00:00 40 GMT''
   \<and> getDaysUntilExpiration demo_platform (world_with_cert ''CERT-Y40'') = Num 4959
   \<and> (asn1_ms (demo_time 40 1 1 0 0 0) - now (world_with_cert ''CERT-Y40'')) div msPerDay = - 725526"
proof -
  have v: "validTo \<lparr>notAfter = demo_time 40 1 1 0 0 0\<rparr> = ''Jan  1 00:00:00 40 GMT''"
    by code_simp
  have "(- 725526) * 86400000 \<le> asn1_ms (demo_time 40 1 1 0 0 0) - now (world_with_cert ''CERT-Y40'')"
    "asn1_ms (demo_time 40 1 1 0 0 0) - now (world_with_cert ''CERT-Y40'') < (- 725526 + 1) * 86400000"
    by (simp_all only: demo_time_values demo_now) simp_all
  then have "(asn1_ms (demo_time 40 1 1 0 0 0) - now (world_with_cert ''CERT-Y40'')) div 86400000
      = - 725526"
    by (rule div_floor)
  then show ?thesis
    using demo_reads(4) demo_X509_values(4) v demo_days_slips(1) by (simp add: msPerDay_def)
qed

text \<open>
  The same path gives no number at all for a certificate whose end of validity is not
  a well-formed time: its text is \<^verbatim>\<open>Bad time value\<close>, the date is invalid, the test
  \<^verbatim>\<open>!expiration\<close> does not catch an invalid date, and the days are \<^verbatim>\<open>NaN\<close> instead of
  the sentinel.
\<close>

lemma getDaysUntilExpiration_bad_time:
  "validTo \<lparr>notAfter = demo_time 2027 13 1 0 0 0\<rparr> = ''Bad time value''"
  "getDaysUntilExpiration demo_platform (world_with_cert ''CERT-BAD'') = NaN"
proof -
  show "validTo \<lparr>notAfter = demo_time 2027 13 1 0 0 0\<rparr> = ''Bad time value''"
    unfolding validTo_def validTo_text_def x509.select_convs using demo_time_values(9) by simp
  show "getDaysUntilExpiration demo_platform (world_with_cert ''CERT-BAD'') = NaN"
    by (rule demo_days_slips(2))
qed

text \<open>
  What does hold of the code: the floor for well-formed times in years from 100 on, and
  the sentinel, with \<^verbatim>\<open>certNeedsRenewal\<close> true, whenever the file cannot be read or the
  text is not a certificate.
\<close>

lemma getDaysUntilExpiration_floor_or_sentinel:
  "readFileSync w (CERT_PATH w) = Inr pem \<and> X509Certificate P pem = Some x
     \<and> asn1_ok (notAfter x) \<and> 100 \<le> a_year (notAfter x) \<longrightarrow>
   getDaysUntilExpiration P w
     = Num \<lfloor>real_of_int (asn1_ms (notAfter x) - now w) / real_of_int msPerDay\<rfloor>"
  "readFileSync w (CERT_PATH w) = Inl e
     \<or> (readFileSync w (CERT_PATH w) = Inr pem \<and> X509Certificate P pem = None) \<longrightarrow>
   getDaysUntilExpiration P w = Num (- 1) \<and> certNeedsRenewal P w"
proof -
  have fl: "\<lfloor>real_of_int (asn1_ms (notAfter x) - now w) / real_of_int msPerDay\<rfloor>
      = (asn1_ms (notAfter x) - now w) div msPerDay"
    by (rule floor_divide_of_int_eq)
  show "readFileSync w (CERT_PATH w) = Inr pem \<and> X509Certificate P pem = Some x
     \<and> asn1_ok (notAfter x) \<and> 100 \<le> a_year (notAfter x) \<longrightarrow>
   getDaysUntilExpiration P w
     = Num \<lfloor>real_of_int (asn1_ms (notAfter x) - now w) / real_of_int msPerDay\<rfloor>"
    unfolding fl using getDaysUntilExpiration_real[of w pem P x] by blast
  have "readFileSync w (CERT_PATH w) = Inl e
     \<or> (readFileSync w (CERT_PATH w) = Inr pem \<and> X509Certificate P pem = None) \<longrightarrow>
   getDaysUntilExpiration P w = Num (- 1)"
    using getDaysUntilExpiration_sentinel[of w _ P] by blast
  then show "readFileSync w (CERT_PATH w) = Inl e
     \<or> (readFileSync w (CERT_PATH w) = Inr pem \<and> X509Certificate P pem = None) \<longrightarrow>
   getDaysUntilExpiration P w = Num (- 1) \<and> certNeedsRenewal P w"
    by (auto simp: certNeedsRenewal_days num_le_def)
qed

lemma certsExist_iff:
  "certsExist w = ((files w (KEY_PATH w) \<noteq> None \<and> reachable w (KEY_PATH w))
                  \<and> (files w (CERT_PATH w) \<noteq> None \<and> reachable w (CERT_PATH w)))"
  by (simp add: certsExist_def existsSync_iff)

lemma certsExist_file_update:
  assumes "p = KEY_PATH w \<or> p = CERT_PATH w" "files w p = Some n"
  shows "certsExist (w\<lparr>files := (files w)(p \<mapsto> n')\<rparr>) = certsExist w"
proof -
  let ?v = "w\<lparr>files := (files w)(p \<mapsto> n')\<rparr>"
  have paths: "KEY_PATH ?v = KEY_PATH w" "CERT_PATH ?v = CERT_PATH w"
    by (simp_all add: KEY_PATH_def CERT_PATH_def CERT_DIR_def)
  have na: "p \<notin> set (ancestors (KEY_PATH w))" "p \<notin> set (ancestors (CERT_PATH w))"
    using assms(1) KEY_CERT_not_above[of w] by auto
  have r: "reachable ?v q = reachable w q" if "p \<notin> set (ancestors q)" for q
    by (rule reachable_cong) (use that in auto)
  have f: "(files ?v q \<noteq> None) = (files w q \<noteq> None)" for q
    using assms(2) by simp
  show ?thesis
    unfolding certsExist_iff[of ?v] certsExist_iff[of w] paths r[OF na(1)] r[OF na(2)] f ..
qed

text \<open>
  Claim C9 (amended). \<^verbatim>\<open>certsExist\<close> is true exactly when each of the two paths, looked
  up on its own, is present and can be reached: every directory above it is there and
  can be searched by the process. One file alone counts as not existing. Read
  permission on the files is not looked at: changing the mode and the content of either
  file changes nothing.
\<close>

theorem certsExist_present_and_reachable:
  "certsExist w = ((files w (KEY_PATH w) \<noteq> None \<and> reachable w (KEY_PATH w))
                  \<and> (files w (CERT_PATH w) \<noteq> None \<and> reachable w (CERT_PATH w)))
   \<and> (files w (KEY_PATH w) = None \<or> files w (CERT_PATH w) = None \<longrightarrow> \<not> certsExist w)
   \<and> ((p = KEY_PATH w \<or> p = CERT_PATH w) \<and> files w p = Some n \<longrightarrow>
        certsExist (w\<lparr>files := (files w)(p \<mapsto> n\<lparr>mode := m, content := c\<rparr>)\<rparr>) = certsExist w)"
  using certsExist_iff[of w] certsExist_file_update[of p w n "n\<lparr>mode := m, content := c\<rparr>"]
  by blast

theorem certsExist_present_and_reachable_witness:
  "certsExist ((world_with_cert ''CERT400'')\<lparr>files := (files (world_with_cert ''CERT400''))
       (CERT_PATH (world_with_cert ''CERT400'') \<mapsto> (demo_file 420 ''CERT400'')\<lparr>mode := 0, content := ''other''\<rparr>)\<rparr>)
   \<and> \<not> certsExist key_only_world
   \<and> \<not> certsExist closed_dir_world"
proof -
  let ?w = "world_with_cert ''CERT400''"
  have f: "files ?w (CERT_PATH ?w) = Some (demo_file 420 ''CERT400'')"
    by (simp add: world_with_cert_def world_with_def demo_world_def CERT_PATH_def CERT_DIR_def
        path_join_def)
  have k: "files key_only_world (CERT_PATH key_only_world) = None"
    by (simp add: key_only_world_def demo_world_def CERT_PATH_def CERT_DIR_def path_join_def)
  have r: "\<not> reachable closed_dir_world (KEY_PATH closed_dir_world)" by code_simp
  have 1: "certsExist (?w\<lparr>files := (files ?w)
       (CERT_PATH ?w \<mapsto> (demo_file 420 ''CERT400'')\<lparr>mode := 0, content := ''other''\<rparr>)\<rparr>) = certsExist ?w"
    using certsExist_present_and_reachable[where w = ?w and p = "CERT_PATH ?w"
        and n = "demo_file 420 ''CERT400''" and m = 0 and c = "''other''"] f
    by blast
  have 2: "\<not> certsExist key_only_world"
    using certsExist_present_and_reachable[of key_only_world] k by blast
  have 3: "\<not> certsExist closed_dir_world"
    using certsExist_present_and_reachable[of closed_dir_world] r by blast
  show ?thesis using 1 2 3 demo_certsExist(1) by simp
qed

text \<open>
  As it was stated, with readability required, the claim fails: the certificate below is
  present, the process cannot read it, and \<^verbatim>\<open>certsExist\<close> is true.
\<close>

theorem certsExist_unreadable_counterexample:
  "certsExist unreadable_cert_world = True
   \<and> readFileSync unreadable_cert_world (CERT_PATH unreadable_cert_world)
       = Inl (Error ''EACCES: permission denied'')"
  using demo_certsExist(7) demo_reads(7) by simp

lemma ensureCerts_spawned_le:
  "length (spawned (snd (ensureCerts P w))) \<le> length (spawned w) + 1"
proof (cases "certsExist w \<and> \<not> num_le (getDaysUntilExpiration P w) 30")
  case True
  then show ?thesis by (simp add: ensureCerts_reuses)
next
  case False
  then have "\<not> certsExist w \<or> num_le (getDaysUntilExpiration P w) 30" by auto
  then obtain c where "ensureCerts P w = generateCerts P (w\<lparr>console := c\<rparr>)"
    using ensureCerts_regenerates by blast
  then show ?thesis by (simp add: generateCerts_spawned)
qed

text \<open>The output path and the days as the tool finds them in its arguments.\<close>

lemma long_paths: "5 < length (KEY_PATH w)" "5 < length (CERT_PATH w)"
  by (simp_all add: KEY_PATH_def CERT_PATH_def CERT_DIR_def path_join_def)

lemma arg_after_invocation:
  "arg_after ''-out'' (snd (invocation w)) = Some (CERT_PATH w)"
  "arg_after ''-days'' (snd (invocation w)) = Some ''365''"
proof -
  have k: "KEY_PATH w \<noteq> ''-out''" "KEY_PATH w \<noteq> ''-days''" "CERT_PATH w \<noteq> ''-days''"
    using long_paths[of w] by auto
  show "arg_after ''-out'' (snd (invocation w)) = Some (CERT_PATH w)"
    unfolding invocation_literal using k by simp
  show "arg_after ''-days'' (snd (invocation w)) = Some ''365''"
    unfolding invocation_literal using k by simp
qed

lemma read_decimal_365: "read_decimal ''365'' = Some 365"
  by code_simp

lemma tool_honours_args_success:
  assumes "tool_honours_args P w" "fst (tool_outcome P w) = None"
  shows "\<exists>c. lookup (w\<lparr>files := snd (tool_outcome P w)\<rparr>) (CERT_PATH w) = Inr c
            \<and> ends_after_days P w c 365"
proof -
  obtain fs where o: "tool_outcome P w = (None, fs)"
    using assms(2) by (cases "tool_outcome P w") auto
  show ?thesis
    using assms(1) unfolding tool_honours_args_def o arg_after_invocation read_decimal_365
    by (cases "lookup (w\<lparr>files := fs\<rparr>) (CERT_PATH w)") (simp_all add: read_decimal_365)
qed

lemma more_than_30_days:
  fixes a :: int
  assumes "365 * msPerDay - 1000 < a"
  shows "\<not> a div msPerDay \<le> 30"
proof -
  have "\<not> a < 31 * msPerDay" using assms by (simp add: msPerDay_def)
  then show ?thesis by (simp add: days_le_30_iff)
qed

text \<open>
  After a generation by a tool that honoured its arguments, with the certificate
  readable, the next call finds both files and more than 30 days left.
\<close>

lemma ensureCerts_after_generation:
  assumes ok: "tool_honours_args P w"
    and g: "generateCerts P (w\<lparr>console := c\<rparr>) = (Inr p, w1)"
    and r: "readFileSync w1 (CERT_PATH w) = Inr pem"
  shows "ensureCerts P w1 = (Inr p, w1)"
proof -
  let ?fs = "snd (tool_outcome P w)"
  let ?v = "w\<lparr>files := ?fs\<rparr>"
  have t: "fst (tool_outcome P w) = None"
    using generateCerts_Inr(2)[OF g] by (simp add: console_irrelevant)
  have p: "p = getCertPaths w"
    using generateCerts_Inr(3)[OF g] by (simp add: console_irrelevant)
  have lc: "lookup (w\<lparr>console := c, files := ?fs\<rparr>) q = lookup ?v q" for q
    by (rule lookup_cong) simp_all
  obtain k where k: "lookup ?v (KEY_PATH w) = Inr k"
      "files w1 = ?fs(KEY_PATH w \<mapsto> k\<lparr>mode := 384\<rparr>)"
    using generateCerts_Inr(4)[OF g] by (auto simp: console_irrelevant lc)
  have n: "now w1 = now w" using generateCerts_Inr(5)[OF g] by simp
  have cw: "cwd w1 = cwd w" using generateCerts_Inr(6)[OF g] by simp
  have pr: "privileged w1 = privileged w" using generateCerts_Inr(7)[OF g] by simp
  have paths: "KEY_PATH w1 = KEY_PATH w" "CERT_PATH w1 = CERT_PATH w" "getCertPaths w1 = getCertPaths w"
    using cw by (simp_all add: KEY_PATH_def CERT_PATH_def CERT_DIR_def getCertPaths_def)
  obtain cn where cn: "lookup ?v (CERT_PATH w) = Inr cn" "ends_after_days P w cn 365"
    using tool_honours_args_success[OF ok t] by blast
  have same: "files w1 d = files ?v d" if "d \<noteq> KEY_PATH w" for d
    using that by (simp add: k(2))
  have l1: "lookup w1 (CERT_PATH w) = Inr cn"
  proof -
    have "lookup w1 (CERT_PATH w) = lookup ?v (CERT_PATH w)"
    proof (rule lookup_cong)
      fix d assume "d \<in> set (ancestors (CERT_PATH w))"
      then have "d \<noteq> KEY_PATH w" using KEY_CERT_not_above(2)[of w] by auto
      then show "files w1 d = files ?v d" by (rule same)
    next
      show "files w1 (CERT_PATH w) = files ?v (CERT_PATH w)"
        using KEY_CERT_distinct[of w] by (simp add: k(2))
    next
      show "privileged w1 = privileged ?v" using pr by simp
    qed
    then show ?thesis using cn(1) by simp
  qed
  have l2: "existsSync w1 (KEY_PATH w)"
  proof -
    have "reachable w1 (KEY_PATH w) = reachable ?v (KEY_PATH w)"
    proof (rule reachable_cong)
      fix d assume "d \<in> set (ancestors (KEY_PATH w))"
      then have "d \<noteq> KEY_PATH w" using KEY_CERT_not_above(1)[of w] by auto
      then show "files w1 d = files ?v d" by (rule same)
    next
      show "privileged w1 = privileged ?v" using pr by simp
    qed
    moreover have "reachable ?v (KEY_PATH w)" using k(1) by (simp add: lookup_Inr)
    ultimately show ?thesis by (simp add: existsSync_iff k(2))
  qed
  have ex: "certsExist w1"
    using l1 l2 by (simp add: certsExist_def paths existsSync_def)
  have pem: "pem = content cn"
    using r l1 by (auto simp: readFileSync_Inr)
  obtain x where x: "X509Certificate P pem = Some x" "asn1_ok (notAfter x)"
      "100 \<le> a_year (notAfter x)" "now w + 365 * msPerDay - 1000 < asn1_ms (notAfter x)"
    using cn(2) unfolding ends_after_days_def pem
    by (cases "X509Certificate P (content cn)") auto
  have r1: "readFileSync w1 (CERT_PATH w1) = Inr pem" using r by (simp add: paths)
  have d: "getDaysUntilExpiration P w1 = Num ((asn1_ms (notAfter x) - now w1) div msPerDay)"
    by (rule getDaysUntilExpiration_real[OF r1 x(1) x(2) x(3)])
  have "365 * msPerDay - 1000 < asn1_ms (notAfter x) - now w1" using x(4) n by simp
  then have "\<not> (asn1_ms (notAfter x) - now w1) div msPerDay \<le> 30"
    by (rule more_than_30_days)
  then have "\<not> num_le (getDaysUntilExpiration P w1) 30" by (simp add: d num_le_def)
  then have "ensureCerts P w1 = (Inr (getCertPaths w1), w1)"
    using ex by (simp add: ensureCerts_reuses)
  then show ?thesis by (simp add: paths p)
qed

lemma ensureCerts_Inr_paths:
  assumes "ensureCerts P w = (Inr p, w1)"
  shows "p = getCertPaths w" "cwd w1 = cwd w"
proof -
  have "p = getCertPaths w \<and> cwd w1 = cwd w"
  proof (cases "certsExist w \<and> \<not> num_le (getDaysUntilExpiration P w) 30")
    case True
    then have "ensureCerts P w = (Inr (getCertPaths w), w)" by (simp add: ensureCerts_reuses)
    with assms show ?thesis by auto
  next
    case False
    then have "\<not> certsExist w \<or> num_le (getDaysUntilExpiration P w) 30" by auto
    then obtain c where "ensureCerts P w = generateCerts P (w\<lparr>console := c\<rparr>)"
      using ensureCerts_regenerates by blast
    with assms have g: "generateCerts P (w\<lparr>console := c\<rparr>) = (Inr p, w1)" by simp
    show ?thesis
      using generateCerts_Inr(3)[OF g] generateCerts_Inr(6)[OF g] by (simp add: console_irrelevant)
  qed
  then show "p = getCertPaths w" "cwd w1 = cwd w" by simp_all
qed

text \<open>
  Claim C4 (amended). One call of \<^verbatim>\<open>ensureCerts\<close> starts the tool at most once. Of two
  calls in a row, with the clock standing still and nothing else touching the files:
  whenever both return paths, the paths are the same. When the first call returns
  paths, and either it started nothing, or the tool honoured its arguments (it left at
  the path after \<^verbatim>\<open>-out\<close> a certificate that ends the days after \<^verbatim>\<open>-days\<close> from now)
  and the process can read the certificate, then the second call returns the same
  paths and leaves the world as the first call left it, so the tool is started at most
  once across the two calls.
\<close>

theorem ensureCerts_idempotent:
  "length (spawned (snd (ensureCerts P w))) \<le> length (spawned w) + 1
   \<and> (ensureCerts P w = (Inr p, w1) \<and> ensureCerts P w1 = (Inr p', w2) \<longrightarrow> p' = p)
   \<and> (ensureCerts P w = (Inr p, w1)
        \<and> (spawned w1 = spawned w
            \<or> (tool_honours_args P w \<and> readFileSync w1 (cert p) = Inr pem)) \<longrightarrow>
        ensureCerts P w1 = (Inr p, w1)
        \<and> length (spawned (snd (ensureCerts P w1))) \<le> length (spawned w) + 1)"
proof -
  have a: "ensureCerts P w = (Inr p, w1) \<and> ensureCerts P w1 = (Inr p', w2) \<longrightarrow> p' = p"
  proof
    assume h: "ensureCerts P w = (Inr p, w1) \<and> ensureCerts P w1 = (Inr p', w2)"
    then have "p = getCertPaths w" "cwd w1 = cwd w" "p' = getCertPaths w1"
      using ensureCerts_Inr_paths[of P w p w1] ensureCerts_Inr_paths[of P w1 p' w2] by simp_all
    then show "p' = p"
      by (simp add: getCertPaths_def KEY_PATH_def CERT_PATH_def CERT_DIR_def)
  qed
  have b: "ensureCerts P w = (Inr p, w1)
        \<and> (spawned w1 = spawned w
            \<or> (tool_honours_args P w \<and> readFileSync w1 (cert p) = Inr pem)) \<longrightarrow>
        ensureCerts P w1 = (Inr p, w1)"
  proof
    assume h: "ensureCerts P w = (Inr p, w1)
        \<and> (spawned w1 = spawned w
            \<or> (tool_honours_args P w \<and> readFileSync w1 (cert p) = Inr pem))"
    show "ensureCerts P w1 = (Inr p, w1)"
    proof (cases "certsExist w \<and> \<not> num_le (getDaysUntilExpiration P w) 30")
      case True
      then have "ensureCerts P w = (Inr (getCertPaths w), w)" by (simp add: ensureCerts_reuses)
      with h show ?thesis by auto
    next
      case False
      then have "\<not> certsExist w \<or> num_le (getDaysUntilExpiration P w) 30" by auto
      then obtain c where "ensureCerts P w = generateCerts P (w\<lparr>console := c\<rparr>)"
        using ensureCerts_regenerates by blast
      with h have g: "generateCerts P (w\<lparr>console := c\<rparr>) = (Inr p, w1)" by simp
      have "\<not> mkdir_fails (w\<lparr>console := c\<rparr>)" by (rule generateCerts_Inr(1)[OF g])
      then have "spawned (snd (generateCerts P (w\<lparr>console := c\<rparr>))) = spawned w @ [invocation w]"
        by (simp add: generateCerts_spawned console_irrelevant)
      then have "spawned w1 \<noteq> spawned w" using g by simp
      with h have ok: "tool_honours_args P w" and r: "readFileSync w1 (cert p) = Inr pem"
        by auto
      have "cert p = CERT_PATH w"
        using generateCerts_Inr(3)[OF g] by (simp add: getCertPaths_def console_irrelevant)
      with r have "readFileSync w1 (CERT_PATH w) = Inr pem" by simp
      with ok g show ?thesis by (rule ensureCerts_after_generation)
    qed
  qed
  have c: "ensureCerts P w1 = (Inr p, w1) \<and> ensureCerts P w = (Inr p, w1)
      \<longrightarrow> length (spawned (snd (ensureCerts P w1))) \<le> length (spawned w) + 1"
    using ensureCerts_spawned_le[of P w] by auto
  show ?thesis using a b c ensureCerts_spawned_le[of P w] by blast
qed

lemma two_calls_on_fresh_world:
  "tool_honours_args demo_platform fresh_world"
  "fst (ensureCerts demo_platform fresh_world)
     = Inr \<lparr>key = ''/app/certs/key.pem'', cert = ''/app/certs/cert.pem''\<rparr>"
  "readFileSync (snd (ensureCerts demo_platform fresh_world)) ''/app/certs/cert.pem'' = Inr ''CERT365''"
  by code_simp+

lemma two_calls_on_write_only:
  "tool_honours_args demo_platform write_only_cert_world"
  "fst (ensureCerts demo_platform write_only_cert_world)
     = Inr \<lparr>key = ''/app/certs/key.pem'', cert = ''/app/certs/cert.pem''\<rparr>"
  "fst (ensureCerts demo_platform (snd (ensureCerts demo_platform write_only_cert_world)))
     = Inr \<lparr>key = ''/app/certs/key.pem'', cert = ''/app/certs/cert.pem''\<rparr>"
  "length (spawned (snd (ensureCerts demo_platform
      (snd (ensureCerts demo_platform write_only_cert_world))))) = 2"
  by code_simp+

theorem ensureCerts_idempotent_witness:
  "ensureCerts demo_platform (snd (ensureCerts demo_platform fresh_world))
     = (Inr \<lparr>key = ''/app/certs/key.pem'', cert = ''/app/certs/cert.pem''\<rparr>,
        snd (ensureCerts demo_platform fresh_world))
   \<and> length (spawned (snd (ensureCerts demo_platform
         (snd (ensureCerts demo_platform fresh_world))))) \<le> 1
   \<and> ensureCerts demo_platform (world_with_cert ''CERT400'')
     = (Inr (getCertPaths (world_with_cert ''CERT400'')), world_with_cert ''CERT400'')
   \<and> fst (ensureCerts demo_platform (snd (ensureCerts demo_platform write_only_cert_world)))
     = fst (ensureCerts demo_platform write_only_cert_world)"
proof -
  let ?p = "\<lparr>key = ''/app/certs/key.pem'', cert = ''/app/certs/cert.pem''\<rparr>"
  let ?w1 = "snd (ensureCerts demo_platform fresh_world)"
  let ?w = "world_with_cert ''CERT400''"
  have g: "ensureCerts demo_platform fresh_world = (Inr ?p, ?w1)"
    using two_calls_on_fresh_world(2) by (simp add: prod_eq_iff)
  have r: "readFileSync ?w1 (cert ?p) = Inr ''CERT365''"
    using two_calls_on_fresh_world(3) by simp
  have s: "length (spawned fresh_world) + 1 = 1" by (simp add: fresh_world_def demo_world_def)
  have "ensureCerts demo_platform ?w1 = (Inr ?p, ?w1)
      \<and> length (spawned (snd (ensureCerts demo_platform ?w1))) \<le> length (spawned fresh_world) + 1"
    using ensureCerts_idempotent[where P = demo_platform and w = fresh_world and p = ?p
        and ?w1.0 = ?w1 and pem = "''CERT365''"]
      two_calls_on_fresh_world(1) g r
    by blast
  then have 1: "ensureCerts demo_platform ?w1 = (Inr ?p, ?w1)
      \<and> length (spawned (snd (ensureCerts demo_platform ?w1))) \<le> 1"
    unfolding s .
  have "\<not> num_le (getDaysUntilExpiration demo_platform ?w) 30"
    by (simp add: demo_days num_le_def)
  then have e: "ensureCerts demo_platform ?w = (Inr (getCertPaths ?w), ?w)"
    using demo_certsExist(1) by (simp add: ensureCerts_reuses)
  have "ensureCerts demo_platform ?w = (Inr (getCertPaths ?w), ?w)"
    using ensureCerts_idempotent[where P = demo_platform and w = ?w and p = "getCertPaths ?w"
        and ?w1.0 = ?w] e
    by blast
  then have 2: "ensureCerts demo_platform ?w = (Inr (getCertPaths ?w), ?w)" .
  let ?u = "write_only_cert_world"
  let ?u1 = "snd (ensureCerts demo_platform ?u)"
  let ?u2 = "snd (ensureCerts demo_platform ?u1)"
  have g1: "ensureCerts demo_platform ?u = (Inr ?p, ?u1)"
    using two_calls_on_write_only(2) by (simp add: prod_eq_iff)
  obtain q where g2: "ensureCerts demo_platform ?u1 = (Inr q, ?u2)"
    using two_calls_on_write_only(3) by (simp add: prod_eq_iff)
  have f2: "fst (ensureCerts demo_platform ?u1) = Inr q" by (metis g2 fst_conv)
  have "q = ?p"
    using ensureCerts_idempotent[where P = demo_platform and w = ?u and p = ?p and ?w1.0 = ?u1
        and p' = q and ?w2.0 = ?u2] g1 g2
    by blast
  then have 3: "fst (ensureCerts demo_platform ?u1) = fst (ensureCerts demo_platform ?u)"
    unfolding f2 two_calls_on_write_only(2) by simp
  show ?thesis using 1 2 3 by blast
qed

text \<open>
  As it was stated, for every state of the filesystem, the claim fails. The file
  \<^verbatim>\<open>cert.pem\<close> below is write-only. The tool writes a certificate into it that is good
  for 365 days; the file keeps its mode, so the next call cannot read it, takes the
  certificate for expired, and generates again: both calls return the paths, and the
  tool has been started twice. It is also started twice when it is not installed: both
  calls throw.
\<close>

lemma two_calls_without_tool:
  "fst (ensureCerts broken_platform fresh_world)
     = Inl (Error ''Failed to generate certificates: Error: spawnSync openssl ENOENT'')"
  "fst (ensureCerts broken_platform (snd (ensureCerts broken_platform fresh_world)))
     = Inl (Error ''Failed to generate certificates: Error: spawnSync openssl ENOENT'')"
  "length (spawned (snd (ensureCerts broken_platform
      (snd (ensureCerts broken_platform fresh_world))))) = 2"
  by code_simp+

theorem ensureCerts_twice_counterexample:
  "spawned write_only_cert_world = []
   \<and> tool_honours_args demo_platform write_only_cert_world
   \<and> fst (ensureCerts demo_platform write_only_cert_world)
       = Inr \<lparr>key = ''/app/certs/key.pem'', cert = ''/app/certs/cert.pem''\<rparr>
   \<and> fst (ensureCerts demo_platform (snd (ensureCerts demo_platform write_only_cert_world)))
       = Inr \<lparr>key = ''/app/certs/key.pem'', cert = ''/app/certs/cert.pem''\<rparr>
   \<and> length (spawned (snd (ensureCerts demo_platform
        (snd (ensureCerts demo_platform write_only_cert_world))))) = 2
   \<and> spawned fresh_world = []
   \<and> fst (ensureCerts broken_platform fresh_world)
       = Inl (Error ''Failed to generate certificates: Error: spawnSync openssl ENOENT'')
   \<and> fst (ensureCerts broken_platform (snd (ensureCerts broken_platform fresh_world)))
       = Inl (Error ''Failed to generate certificates: Error: spawnSync openssl ENOENT'')
   \<and> length (spawned (snd (ensureCerts broken_platform
        (snd (ensureCerts broken_platform fresh_world))))) = 2"
proof -
  have "spawned write_only_cert_world = []"
    by (simp add: write_only_cert_world_def world_with_def demo_world_def)
  moreover have "spawned fresh_world = []"
    by (simp add: fresh_world_def demo_world_def)
  ultimately show ?thesis using two_calls_on_write_only two_calls_without_tool by blast
qed

text \<open>
  The days passed to the tool matter: with a tool that leaves a certificate ending 30
  days and one second from now, the second call finds 30 days left and generates again.
\<close>

lemma two_calls_short_lived:
  "\<not> tool_honours_args short_lived_platform fresh_world"
  "fst (ensureCerts short_lived_platform fresh_world)
     = Inr \<lparr>key = ''/app/certs/key.pem'', cert = ''/app/certs/cert.pem''\<rparr>"
  "length (spawned (snd (ensureCerts short_lived_platform
      (snd (ensureCerts short_lived_platform fresh_world))))) = 2"
proof -
  let ?w1 = "snd (ensureCerts short_lived_platform fresh_world)"
  show "\<not> tool_honours_args short_lived_platform fresh_world" by code_simp
  show "fst (ensureCerts short_lived_platform fresh_world)
     = Inr \<lparr>key = ''/app/certs/key.pem'', cert = ''/app/certs/cert.pem''\<rparr>"
    by code_simp
  have r: "readFileSync ?w1 (CERT_PATH ?w1) = Inr ''CERT30''" by code_simp
  have x: "X509Certificate short_lived_platform ''CERT30''
      = Some \<lparr>notAfter = demo_time 2026 7 3 12 0 1\<rparr>"
    by (simp add: short_lived_platform_def demo_X509_def)
  have n: "now ?w1 = 1780488000000" by code_simp
  have "getDaysUntilExpiration short_lived_platform ?w1 = Num 30"
    by (rule days_of_real[OF r x demo_time_values(5) _ demo_time_values(6) n])
       (simp_all add: demo_time_year)
  then have d: "num_le (getDaysUntilExpiration short_lived_platform ?w1) 30"
    by (simp add: num_le_def)
  have m: "\<not> mkdir_fails ?w1" by code_simp
  obtain c where "ensureCerts short_lived_platform ?w1
      = generateCerts short_lived_platform (?w1\<lparr>console := c\<rparr>)"
    using ensureCerts_regenerates[of ?w1 short_lived_platform] d by blast
  then have "spawned (snd (ensureCerts short_lived_platform ?w1)) = spawned ?w1 @ [invocation ?w1]"
    using m by (simp add: generateCerts_spawned console_irrelevant)
  moreover have "length (spawned ?w1) = 1" by code_simp
  ultimately show "length (spawned (snd (ensureCerts short_lived_platform ?w1))) = 2"
    by simp
qed

section \<open>The earlier revision, for comparison\<close>

text \<open>
  The earlier \<^verbatim>\<open>ensureCerts\<close> (lines 71 to 76) returns the existing paths whenever
  both files are present, whatever the certificate says; the later one regenerates an
  unparsable certificate in the same world.
\<close>

lemma ensureCerts_rev0_no_expiry_check:
  "certsExist w \<Longrightarrow> ensureCerts_rev0 P w = (Inr (getCertPaths w), w)"
  by (simp add: ensureCerts_rev0_def)

lemma ensureCerts_rev0_differs:
  "spawned (snd (ensureCerts_rev0 demo_platform (world_with_cert ''garbage''))) = []
   \<and> length (spawned (snd (ensureCerts demo_platform (world_with_cert ''garbage'')))) = 1"
  by code_simp

text \<open>
  The earlier \<^verbatim>\<open>getLocalIP\<close> (\<^verbatim>\<open>part_000\<close>) returns the first external IPv4 entry
  without looking at its address; the later one skips a malformed address.
\<close>

lemma getLocalIP_rev0_differs:
  "fst (getLocalIP_rev0 malformed_address_world) = ''999.1.1.1''
   \<and> \<not> isValidIPv4 ''999.1.1.1''
   \<and> fst (getLocalIP malformed_address_world) = ''127.0.0.1''"
  by code_simp

end
